theory Spec2Isabelle
  imports Main "HOL-Library.Sublist"
begin

section \<open>Upload tokens\<close>

text \<open>
  The upload-token document of \<^verbatim>\<open>shared/uploadTokenModel\<close> (the mongoose schema
  \<^verbatim>\<open>uploadTokenSchema\<close>). Instants are milliseconds since the epoch, which is what
  JavaScript compares when two \<^verbatim>\<open>Date\<close> values meet \<^verbatim>\<open><\<close>; the
  counters are integers.
\<close>

datatype token_status = Active | Expired | Revoked

record upload_entry =
  fileName :: string
  oneDrivePath :: string
  uploadedAt :: int

record upload_token =
  doc_id :: nat
  token :: string
  userId :: string
  expiresAt :: int
  maxUploads :: int
  uploadsUsed :: int
  status :: token_status
  uploads :: "upload_entry list"

text \<open>
  \<^verbatim>\<open>uploadTokenSchema.methods.isValid\<close>; the argument \<open>now\<close> is the value of
  \<^verbatim>\<open>new Date()\<close> read inside the method.
\<close>

definition isValid :: "int \<Rightarrow> upload_token \<Rightarrow> bool" where
  "isValid now t =
     (if status t = Revoked then False
      else if expiresAt t < now then False
      else if uploadsUsed t \<ge> maxUploads t then False
      else True)"

text \<open>
  The same test written inline in the standalone upload handler and in the standalone
  status check: \<^verbatim>\<open>status === 'revoked' || new Date(expiresAt) < now || uploadsUsed >= maxUploads\<close>.
\<close>

definition tokenRejected :: "int \<Rightarrow> upload_token \<Rightarrow> bool" where
  "tokenRejected now t =
     (status t = Revoked \<or> expiresAt t < now \<or> uploadsUsed t \<ge> maxUploads t)"

definition sampleToken :: upload_token where
  "sampleToken =
     \<lparr>doc_id = 7, token = ''tok-1'', userId = ''u42'', expiresAt = 1000, maxUploads = 3,
      uploadsUsed = 1, status = Active, uploads = []\<rparr>"

section \<open>JavaScript strings and buffers\<close>

text \<open>
  Buffers and strings are byte lists (\<^typ>\<open>string\<close>). \<^verbatim>\<open>Buffer.toString()\<close> is
  read as the identity, which is what it is on ASCII bytes; white space and line terminators
  are the ASCII ones of JavaScript's \<^verbatim>\<open>\s\<close>, \<^verbatim>\<open>.\<close> and \<^verbatim>\<open>trim()\<close>.
\<close>

definition dq :: char where
  "dq = CHR 0x22"

definition CRLF :: string where
  "CRLF = [CHR 0x0D, CHR 0x0A]"

definition isLineTerminator :: "char \<Rightarrow> bool" where
  "isLineTerminator c = (c = CHR 0x0A \<or> c = CHR 0x0D)"

definition isWhiteSpace :: "char \<Rightarrow> bool" where
  "isWhiteSpace c =
     (c = CHR 0x09 \<or> c = CHR 0x0A \<or> c = CHR 0x0B \<or> c = CHR 0x0C \<or> c = CHR 0x0D \<or> c = CHR 0x20)"

definition jsTrim :: "string \<Rightarrow> string" where
  "jsTrim s = rev (dropWhile isWhiteSpace (rev (dropWhile isWhiteSpace s)))"

definition lowerAscii :: "char \<Rightarrow> char" where
  "lowerAscii c =
     (case map_of (zip ''ABCDEFGHIJKLMNOPQRSTUVWXYZ'' ''abcdefghijklmnopqrstuvwxyz'') c of
        Some l \<Rightarrow> l
      | None \<Rightarrow> c)"

text \<open>Decimal rendering of a number inside a template literal.\<close>

definition digitChar :: "nat \<Rightarrow> char" where
  "digitChar d = ''0123456789'' ! d"

function showNat :: "nat \<Rightarrow> string" where
  "showNat n = (if n < 10 then [digitChar n] else showNat (n div 10) @ [digitChar (n mod 10)])"
  by pat_completeness auto
termination
  by (relation "measure (\<lambda>n. n)") auto

declare showNat.simps [simp del]

definition showInt :: "int \<Rightarrow> string" where
  "showInt i = (if i < 0 then CHR ''-'' # showNat (nat (- i)) else showNat (nat i))"

text \<open>Reading a decimal numeral back, to say that \<open>showNat\<close> writes the number itself.\<close>

definition digitValue :: "char \<Rightarrow> nat" where
  "digitValue c = of_char c - 48"

definition readNat :: "string \<Rightarrow> nat" where
  "readNat s = foldl (\<lambda>a c. 10 * a + digitValue c) 0 s"

text \<open>
  \<^verbatim>\<open>buf.indexOf(needle, start)\<close>: the first offset at or after \<open>start\<close> where the
  needle occurs, \<open>None\<close> for \<^verbatim>\<open>-1\<close>.
\<close>

fun indexOfAux :: "string \<Rightarrow> string \<Rightarrow> nat \<Rightarrow> nat option" where
  "indexOfAux needle [] i = (if needle = [] then Some i else None)"
| "indexOfAux needle (c # cs) i =
     (if prefix needle (c # cs) then Some i else indexOfAux needle cs (Suc i))"

definition indexOf :: "string \<Rightarrow> string \<Rightarrow> nat \<Rightarrow> nat option" where
  "indexOf buf needle start = indexOfAux needle (drop start buf) start"

text \<open>\<^verbatim>\<open>buf.slice(a, b)\<close> for offsets that are not negative; empty when \<open>b \<le> a\<close>.\<close>

definition slice :: "string \<Rightarrow> nat \<Rightarrow> nat \<Rightarrow> string" where
  "slice buf a b = take (b - a) (drop a buf)"

section \<open>Regular expressions of the multipart decoder\<close>

text \<open>
  An unanchored \<^verbatim>\<open>str.match(re)\<close> tries the pattern at every offset from the left and
  keeps the first success; \<open>m\<close> is the pattern anchored at the head of its argument and
  returns the first capture group.
\<close>

fun regexSearch :: "(string \<Rightarrow> string option) \<Rightarrow> string \<Rightarrow> string option" where
  "regexSearch m [] = m []"
| "regexSearch m (c # cs) = (case m (c # cs) of Some r \<Rightarrow> Some r | None \<Rightarrow> regexSearch m cs)"

text \<open>
  \<^verbatim>\<open>/boundary=(.+?)(?:;|$)/\<close>: after \<^verbatim>\<open>boundary=\<close> the lazy group takes at least one
  character that is no line terminator and stops at the first \<^verbatim>\<open>;\<close> or at the end of
  the header value.
\<close>

fun lazyDots :: "string \<Rightarrow> string \<Rightarrow> string option" where
  "lazyDots acc [] = Some acc"
| "lazyDots acc (c # cs) =
     (if c = CHR '';'' then Some acc
      else if isLineTerminator c then None
      else lazyDots (acc @ [c]) cs)"

definition boundaryAt :: "string \<Rightarrow> string option" where
  "boundaryAt s =
     (if prefix ''boundary='' s then
        (case drop 9 s of
           [] \<Rightarrow> None
         | c # cs \<Rightarrow> if isLineTerminator c then None else lazyDots [c] cs)
      else None)"

definition boundaryMatch :: "string \<Rightarrow> string option" where
  "boundaryMatch contentType = regexSearch boundaryAt contentType"

text \<open>
  \<^verbatim>\<open>/name="([^"]+)"/\<close> and \<^verbatim>\<open>/filename="([^"]+)"/\<close>: the key, a non-empty run of
  characters other than the double quote, and the closing double quote.
\<close>

definition quotedAt :: "string \<Rightarrow> string \<Rightarrow> string option" where
  "quotedAt key s =
     (if prefix key s then
        (let r = drop (length key) s; v = takeWhile (\<lambda>c. c \<noteq> dq) r
         in if v \<noteq> [] \<and> length v < length r then Some v else None)
      else None)"

definition nameMatch :: "string \<Rightarrow> string option" where
  "nameMatch headerStr = regexSearch (quotedAt (''name='' @ [dq])) headerStr"

definition filenameMatch :: "string \<Rightarrow> string option" where
  "filenameMatch headerStr = regexSearch (quotedAt (''filename='' @ [dq])) headerStr"

text \<open>
  \<^verbatim>\<open>/Content-Type:\s*(.+)/i\<close>: the greedy \<^verbatim>\<open>\s*\<close> gives characters back only when
  the white space runs to the end of the header block; the capture then is the last
  character of that run that is no line terminator.
\<close>

definition mimeAt :: "string \<Rightarrow> string option" where
  "mimeAt s =
     (if map lowerAscii (take 13 s) = ''content-type:'' then
        (let r = drop 13 s; ws = takeWhile isWhiteSpace r; rest = dropWhile isWhiteSpace r
         in if rest \<noteq> [] then Some (takeWhile (\<lambda>c. \<not> isLineTerminator c) rest)
            else (case dropWhile isLineTerminator (rev ws) of
                    [] \<Rightarrow> None
                  | c # _ \<Rightarrow> Some [c]))
      else None)"

definition mimeMatch :: "string \<Rightarrow> string option" where
  "mimeMatch headerStr = regexSearch mimeAt headerStr"

section \<open>The multipart decoder\<close>

record file_part =
  filename :: string
  mimeType :: string
  buffer :: string

record request =
  contentType :: "string option"
  body :: "string option"

record decoded =
  files :: "file_part list"
  formToken :: "string option"

datatype parse_error = NoBoundaryFound | BodyNotBuffer

lemma indexOfAux_ge: "indexOfAux needle xs i = Some k \<Longrightarrow> i \<le> k"
  by (induction xs arbitrary: i) (auto split: if_splits dest: Suc_leD)

lemma indexOf_ge: "indexOf buf needle start = Some k \<Longrightarrow> start \<le> k"
  unfolding indexOf_def by (rule indexOfAux_ge)

text \<open>
  One part between two delimiters: what the loop body of \<^verbatim>\<open>parseMultipart\<close> does to
  \<^verbatim>\<open>parts\<close> and \<^verbatim>\<open>token\<close>.
\<close>

definition parsePart :: "string \<Rightarrow> file_part list \<times> string option \<Rightarrow> file_part list \<times> string option" where
  "parsePart part acc =
     (case indexOf part (CRLF @ CRLF) 0 of
        None \<Rightarrow> acc
      | Some headerEnd \<Rightarrow>
          (let headerStr = slice part 0 headerEnd;
               content = slice part (headerEnd + 4) (length part - 2)
           in if nameMatch headerStr = Some ''token'' \<and> filenameMatch headerStr = None
              then (fst acc, Some (jsTrim content))
              else (case filenameMatch headerStr of
                      Some fn \<Rightarrow>
                        (fst acc @
                           [\<lparr>filename = fn,
                             mimeType = (case mimeMatch headerStr of
                                           Some m \<Rightarrow> jsTrim m
                                         | None \<Rightarrow> ''application/octet-stream''),
                             buffer = content\<rparr>],
                         snd acc)
                    | None \<Rightarrow> acc)))"

function parseLoop :: "string \<Rightarrow> string \<Rightarrow> nat \<Rightarrow> file_part list \<times> string option \<Rightarrow> file_part list \<times> string option" where
  "parseLoop bdy boundary start acc =
     (if start < length bdy then
        (case indexOf bdy (''--'' @ boundary) start of
           None \<Rightarrow> acc
         | Some nextBoundary \<Rightarrow>
             parseLoop bdy boundary (nextBoundary + length (''--'' @ boundary))
               (parsePart (slice bdy start nextBoundary) acc))
      else acc)"
  by pat_completeness auto
termination
  by (relation "measure (\<lambda>(bdy, boundary, start, acc). length bdy - start)")
     (auto dest: indexOf_ge)

declare parseLoop.simps [simp del]

definition parseMultipart :: "request \<Rightarrow> parse_error + decoded" where
  "parseMultipart req =
     (case boundaryMatch (case contentType req of Some ct \<Rightarrow> ct | None \<Rightarrow> []) of
        None \<Rightarrow> Inl NoBoundaryFound
      | Some boundary \<Rightarrow>
          (case body req of
             None \<Rightarrow> Inl BodyNotBuffer
           | Some bdy \<Rightarrow>
               (let boundaryBuf = ''--'' @ boundary;
                    start = (case indexOf bdy boundaryBuf 0 of
                               Some i \<Rightarrow> i + length boundaryBuf
                             | None \<Rightarrow> length boundaryBuf - 1);
                    r = parseLoop bdy boundary start ([], None)
                in Inr \<lparr>files = fst r, formToken = snd r\<rparr>)))"

section \<open>Well-formed multipart bodies\<close>

text \<open>
  The bodies that the decoding property speaks about. A part is a pair of its header block
  (the header lines, joined by CRLF) and its content; \<open>renderBody\<close> writes the parts in the
  standard framing \<^verbatim>\<open>--boundary CRLF headers CRLF CRLF content CRLF\<close> and closes with
  \<^verbatim>\<open>--boundary-- CRLF\<close>. \<open>partBytes\<close> is what stands between two delimiters. A part
  is \<open>wellFramed\<close> when its framing cannot be misread: the first blank line is the one that
  ends its header block, and the first delimiter after its start is the one that closes it.
  \<open>declaredType\<close> is the \<^verbatim>\<open>mimeType\<close> the decoder gives a file part.
\<close>

definition delimiter :: "string \<Rightarrow> string" where
  "delimiter b = ''--'' @ b"

definition partBytes :: "string \<times> string \<Rightarrow> string" where
  "partBytes p = CRLF @ fst p @ CRLF @ CRLF @ snd p @ CRLF"

definition renderBody :: "string \<Rightarrow> (string \<times> string) list \<Rightarrow> string" where
  "renderBody b ps = concat (map (\<lambda>p. delimiter b @ partBytes p) ps) @ delimiter b @ ''--'' @ CRLF"

definition wellFramed :: "string \<Rightarrow> string \<times> string \<Rightarrow> bool" where
  "wellFramed b p =
     (indexOf (CRLF @ fst p @ CRLF @ CRLF) (CRLF @ CRLF) 0 = Some (length (fst p) + 2)
      \<and> indexOf (partBytes p @ delimiter b) (delimiter b) 0 = Some (length (partBytes p)))"

definition declaredType :: "string \<Rightarrow> string" where
  "declaredType headerStr =
     (case mimeMatch headerStr of Some m \<Rightarrow> jsTrim m | None \<Rightarrow> ''application/octet-stream'')"

section \<open>Object storage calls\<close>

text \<open>
  Every storage helper of the standalone handler (\<^verbatim>\<open>graphPut\<close>, \<^verbatim>\<open>graphPost\<close>,
  \<^verbatim>\<open>rawPut\<close>) ends in \<^verbatim>\<open>httpsRequest\<close>, which resolves on a status code in
  \<open>[200, 300)\<close> and rejects otherwise. The outcome of the \<open>j\<close>-th storage call of a request is
  given by the environment: a response (status code and, for a session creation, the
  \<^verbatim>\<open>uploadUrl\<close> of its body when it carries a usable one) or \<open>Failed\<close> for a call that
  rejects without a response (network error, failed credential exchange).
\<close>

datatype http_outcome = Response nat "string option" | Failed

definition resolves :: "http_outcome \<Rightarrow> bool" where
  "resolves r = (case r of Response statusCode _ \<Rightarrow> 200 \<le> statusCode \<and> statusCode < 300 | Failed \<Rightarrow> False)"

text \<open>
  The library handler sends its chunks with \<^verbatim>\<open>fetch\<close>, whose promise is fulfilled by
  any response and rejects only when no response arrives; the handler does not look at the
  response.
\<close>

definition fetched :: "http_outcome \<Rightarrow> bool" where
  "fetched r = (case r of Response _ _ \<Rightarrow> True | Failed \<Rightarrow> False)"

definition uploadUrl :: "http_outcome \<Rightarrow> string option" where
  "uploadUrl r = (case r of Response _ u \<Rightarrow> u | Failed \<Rightarrow> None)"

datatype storage_call =
    GraphPut string string
  | GraphPost string string
  | RawPut string string string

definition ALLOWED_MIME_TYPES :: "string list" where
  "ALLOWED_MIME_TYPES =
     [''application/pdf'', ''image/jpeg'', ''image/png'', ''image/tiff'',
      ''application/vnd.openxmlformats-officedocument.wordprocessingml.document'']"

definition MAX_FILE_SIZE :: nat where
  "MAX_FILE_SIZE = 50 * 1024 * 1024"

definition chunkSize :: nat where
  "chunkSize = 4 * 1024 * 1024"

definition contentRange :: "nat \<Rightarrow> nat \<Rightarrow> nat \<Rightarrow> string" where
  "contentRange i rangeEnd totalSize =
     ''bytes '' @ showNat i @ ''-'' @ showNat rangeEnd @ ''/'' @ showNat totalSize"

text \<open>
  The chunk loop \<^verbatim>\<open>for (let i = 0; i < file.buffer.length; i += chunkSize)\<close>. \<open>putOk\<close>
  says when the awaited PUT lets the loop go on (\<open>resolves\<close> for \<^verbatim>\<open>rawPut\<close>,
  \<open>fetched\<close> for \<^verbatim>\<open>fetch\<close>); \<open>j\<close> is the number of storage calls made before the
  first chunk, \<open>sent\<close> the chunk calls made so far. The result is the calls made and
  whether the loop ran to its end.
\<close>

function chunkLoop ::
  "(http_outcome \<Rightarrow> bool) \<Rightarrow> (nat \<Rightarrow> http_outcome) \<Rightarrow> nat \<Rightarrow> string \<Rightarrow> string \<Rightarrow> nat \<Rightarrow>
   storage_call list \<Rightarrow> storage_call list \<times> bool" where
  "chunkLoop putOk st j url buf i sent =
     (if i < length buf then
        (let chunk = slice buf i (min (i + chunkSize) (length buf));
             rangeEnd = min (i + chunkSize - 1) (length buf - 1);
             call = RawPut url chunk (contentRange i rangeEnd (length buf))
         in if putOk (st (j + length sent))
            then chunkLoop putOk st j url buf (i + chunkSize) (sent @ [call])
            else (sent @ [call], False))
      else (sent, True))"
  by pat_completeness auto
termination
  by (relation "measure (\<lambda>(putOk, st, j, url, buf, i, sent). length buf - i)")
     (auto simp: chunkSize_def)

declare chunkLoop.simps [simp del]

text \<open>
  The pairs \<^verbatim>\<open>(i, rangeEnd)\<close> that the chunk loop goes through for a buffer of \<open>n\<close> bytes,
  from offset \<open>i\<close> on, and the PUT it sends for one of them: the chunk
  \<^verbatim>\<open>buffer.slice(i, Math.min(i + chunkSize, n))\<close> under the header
  \<^verbatim>\<open>Content-Range: bytes i-rangeEnd/n\<close>.
\<close>

function chunkRanges :: "nat \<Rightarrow> nat \<Rightarrow> (nat \<times> nat) list" where
  "chunkRanges i n =
     (if i < n then (i, min (i + chunkSize - 1) (n - 1)) # chunkRanges (i + chunkSize) n else [])"
  by pat_completeness auto
termination
  by (relation "measure (\<lambda>(i, n). n - i)") (auto simp: chunkSize_def)

declare chunkRanges.simps [simp del]

definition chunkCall :: "string \<Rightarrow> string \<Rightarrow> nat \<times> nat \<Rightarrow> storage_call" where
  "chunkCall url buf r =
     RawPut url (slice buf (fst r) (min (fst r + chunkSize) (length buf)))
       (contentRange (fst r) (snd r) (length buf))"

text \<open>
  \<open>tiles a rs n\<close>: the inclusive ranges \<open>rs\<close>, in this order, cover the offsets from \<open>a\<close> up
  to \<open>n\<close> with neither gap nor overlap, each starting right after the one before.
\<close>

fun tiles :: "nat \<Rightarrow> (nat \<times> nat) list \<Rightarrow> nat \<Rightarrow> bool" where
  "tiles a [] n = (a = n)"
| "tiles a (r # rs) n = (fst r = a \<and> fst r \<le> snd r \<and> snd r < n \<and> tiles (Suc (snd r)) rs n)"

text \<open>
  The body of the per-file \<^verbatim>\<open>try\<close>: the direct PUT for a buffer of at most 4 MiB,
  otherwise the session creation followed by the chunk loop. A session whose body carries no
  usable URL makes the first chunk PUT throw before any request is sent.
\<close>

definition uploadFile ::
  "(http_outcome \<Rightarrow> bool) \<Rightarrow> (nat \<Rightarrow> http_outcome) \<Rightarrow> nat \<Rightarrow> string \<Rightarrow> string \<Rightarrow> file_part \<Rightarrow>
   storage_call list \<times> bool" where
  "uploadFile putOk st j oneDriveUser filePath file =
     (if length (buffer file) \<le> 4 * 1024 * 1024 then
        ([GraphPut (''/users/'' @ oneDriveUser @ ''/drive/root:/'' @ filePath @ '':/content'')
            (buffer file)],
         resolves (st j))
      else
        (let post = GraphPost
               (''/users/'' @ oneDriveUser @ ''/drive/root:/'' @ filePath @ '':/createUploadSession'')
               (filename file)
         in if resolves (st j) then
              (case uploadUrl (st j) of
                 None \<Rightarrow> ([post], False)
               | Some url \<Rightarrow>
                   (let r = chunkLoop putOk st (Suc j) url (buffer file) 0 []
                    in (post # fst r, snd r)))
            else ([post], False)))"

section \<open>Environment of a request\<close>

record user =
  user_id :: string
  firstName :: "string option"
  lastName :: "string option"

text \<open>
  What a request meets outside the handler: whether the Token Store can be reached, its
  \<^verbatim>\<open>uploadtokens\<close> and \<^verbatim>\<open>users\<close> collections, the clock (\<open>clock\<close> for the instant of the validity
  check, \<open>pathStamp k\<close> for \<^verbatim>\<open>Date.now()\<close> in the path of the \<open>k\<close>-th file,
  \<open>doneStamp k\<close> for the \<^verbatim>\<open>uploadedAt\<close> of its history entry), the storage outcomes and
  \<^verbatim>\<open>ONEDRIVE_USER_EMAIL\<close>.
\<close>

record env =
  storeOnline :: bool
  uploadtokens :: "upload_token list"
  users :: "user list"
  clock :: int
  pathStamp :: "nat \<Rightarrow> int"
  doneStamp :: "nat \<Rightarrow> int"
  storage :: "nat \<Rightarrow> http_outcome"
  oneDriveUser :: string

text \<open>\<^verbatim>\<open>collection.findOne({ token })\<close>: the first document with that token.\<close>

definition findOne :: "upload_token list \<Rightarrow> string \<Rightarrow> upload_token option" where
  "findOne coll t = find (\<lambda>d. token d = t) coll"

text \<open>
  The two ways a handler writes to the Token Store: the standalone handler's
  \<^verbatim>\<open>updateOne({ _id }, { $inc: { uploadsUsed }, $push: { uploads: { $each } } })\<close> and the
  library handler's \<^verbatim>\<open>uploadToken.save()\<close> of the document it changed in memory.
\<close>

datatype store_update =
    UpdateOne nat int "upload_entry list"
  | Save upload_token

fun applyUpdate :: "store_update \<Rightarrow> upload_token list \<Rightarrow> upload_token list" where
  "applyUpdate u [] = []"
| "applyUpdate (UpdateOne i n ups) (d # ds) =
     (if doc_id d = i then d\<lparr>uploadsUsed := uploadsUsed d + n, uploads := uploads d @ ups\<rparr> # ds
      else d # applyUpdate (UpdateOne i n ups) ds)"
| "applyUpdate (Save doc) (d # ds) =
     (if doc_id d = doc_id doc then doc # ds else d # applyUpdate (Save doc) ds)"

section \<open>Responses\<close>

record upload_result =
  resFilename :: string
  success :: bool
  resError :: "string option"

datatype res_body =
    ErrorBody string
  | ErrorReasonBody string string
  | ResultsBody "upload_result list" int
  | ValidBody string int int

record response =
  resStatus :: nat
  resBody :: res_body

text \<open>
  What a request leaves behind: the response, the storage calls made, the Token Store
  updates issued, and the \<^verbatim>\<open>uploadtokens\<close> collection afterwards.
\<close>

record outcome =
  res :: response
  calls :: "storage_call list"
  updates :: "store_update list"
  store :: "upload_token list"

definition reject :: "env \<Rightarrow> nat \<Rightarrow> string \<Rightarrow> outcome" where
  "reject e code msg =
     \<lparr>res = \<lparr>resStatus = code, resBody = ErrorBody msg\<rparr>, calls = [], updates = [],
      store = uploadtokens e\<rparr>"

section \<open>The upload handlers\<close>

text \<open>
  The upload loop \<^verbatim>\<open>for (const file of files)\<close> with its per-file \<^verbatim>\<open>try/catch\<close>:
  \<open>k\<close> is the index of the file, \<open>j\<close> the number of storage calls made so far. It returns
  \<^verbatim>\<open>uploadResults\<close>, the staged history entries and the storage calls.
\<close>

fun uploadAll ::
  "(http_outcome \<Rightarrow> bool) \<Rightarrow> env \<Rightarrow> string \<Rightarrow> nat \<Rightarrow> nat \<Rightarrow> file_part list \<Rightarrow>
   upload_result list \<times> upload_entry list \<times> storage_call list" where
  "uploadAll putOk e uid k j [] = ([], [], [])"
| "uploadAll putOk e uid k j (file # rest) =
     (let filePath = ''AIFile-Uploads/'' @ uid @ ''/'' @ showInt (pathStamp e k) @ ''-'' @ filename file;
          up = uploadFile putOk (storage e) j (oneDriveUser e) filePath file;
          r = uploadAll putOk e uid (Suc k) (j + length (fst up)) rest
      in if snd up then
           (\<lparr>resFilename = filename file, success = True, resError = None\<rparr> # fst r,
            \<lparr>fileName = filename file, oneDrivePath = filePath, uploadedAt = doneStamp e k\<rparr> # fst (snd r),
            fst up @ snd (snd r))
         else
           (\<lparr>resFilename = filename file, success = False, resError = Some ''Upload failed''\<rparr> # fst r,
            fst (snd r),
            fst up @ snd (snd r)))"

text \<open>The validation loop of the standalone handler: type, then size, file by file.\<close>

fun validateFiles :: "file_part list \<Rightarrow> string option" where
  "validateFiles [] = None"
| "validateFiles (file # rest) =
     (if mimeType file \<notin> set ALLOWED_MIME_TYPES
      then Some (''File type not allowed: '' @ filename file)
      else if length (buffer file) > MAX_FILE_SIZE
      then Some (''File too large: '' @ filename file @ ''. Max 50MB.'')
      else validateFiles rest)"

text \<open>
  The standalone upload handler after \<^verbatim>\<open>parseMultipart\<close> has returned, and the handler
  itself. An exception of the decoder, or of \<^verbatim>\<open>getDb()\<close> when the store cannot be
  reached, ends in the outer \<^verbatim>\<open>catch\<close>; a store that is reachable answers every query.
\<close>

definition processUpload :: "env \<Rightarrow> decoded \<Rightarrow> outcome" where
  "processUpload e d =
     (case formToken d of
        None \<Rightarrow> reject e 400 ''Token is required''
      | Some t \<Rightarrow>
        if t = [] then reject e 400 ''Token is required''
        else if files d = [] then reject e 400 ''No files provided''
        else if \<not> storeOnline e then reject e 500 ''Internal server error''
        else (case findOne (uploadtokens e) t of
                None \<Rightarrow> reject e 410 ''Upload link is no longer valid''
              | Some uploadToken \<Rightarrow>
                if tokenRejected (clock e) uploadToken then reject e 410 ''Upload link is no longer valid''
                else (let remaining = maxUploads uploadToken - uploadsUsed uploadToken in
                  if int (length (files d)) > remaining
                  then reject e 400 (''Only '' @ showInt remaining @ '' upload(s) remaining'')
                  else (case validateFiles (files d) of
                          Some msg \<Rightarrow> reject e 400 msg
                        | None \<Rightarrow>
                          (let r = uploadAll resolves e (userId uploadToken) 0 0 (files d);
                               uploadResults = fst r;
                               newUploads = fst (snd r);
                               successCount = int (length (filter success uploadResults));
                               ups = (if successCount > 0
                                      then [UpdateOne (doc_id uploadToken) successCount newUploads]
                                      else [])
                           in \<lparr>res = \<lparr>resStatus = 200,
                                      resBody = ResultsBody uploadResults (remaining - successCount)\<rparr>,
                               calls = snd (snd r),
                               updates = ups,
                               store = foldl (\<lambda>c u. applyUpdate u c) (uploadtokens e) ups\<rparr>)))))"

definition uploadHandler :: "env \<Rightarrow> request \<Rightarrow> outcome" where
  "uploadHandler e req =
     (case parseMultipart req of
        Inl err \<Rightarrow> reject e 500 ''Internal server error''
      | Inr d \<Rightarrow> processUpload e d)"

text \<open>
  The library handler (\<^verbatim>\<open>api/upload/index.js\<close>). Its decoder is busboy, which is not part of
  the repository: the handler is modelled from what busboy hands over, \<open>None\<close> when the
  decoding promise rejects. The type loop checks the declared type only, and no size is
  checked. The graph client's \<^verbatim>\<open>put\<close> and \<^verbatim>\<open>post\<close> reject on a status outside
  \<open>[200, 300)\<close>; the chunks go through \<^verbatim>\<open>fetch\<close>. The upload loop changes the loaded
  document in memory, one push and one increment per success, and \<^verbatim>\<open>save()\<close> writes
  it back whether or not anything succeeded.
\<close>

fun validateTypes :: "file_part list \<Rightarrow> string option" where
  "validateTypes [] = None"
| "validateTypes (file # rest) =
     (if mimeType file \<notin> set ALLOWED_MIME_TYPES
      then Some (''File type not allowed: '' @ filename file @ ''. Accepted: PDF, JPEG, PNG, TIFF, DOCX'')
      else validateTypes rest)"

definition recordUpload :: "upload_token \<Rightarrow> upload_entry \<Rightarrow> upload_token" where
  "recordUpload doc entry =
     doc\<lparr>uploads := uploads doc @ [entry], uploadsUsed := uploadsUsed doc + 1\<rparr>"

definition uploadHandlerLib :: "env \<Rightarrow> decoded option \<Rightarrow> outcome" where
  "uploadHandlerLib e parsed =
     (case parsed of
        None \<Rightarrow> reject e 500 ''Internal server error''
      | Some d \<Rightarrow>
        (case formToken d of
           None \<Rightarrow> reject e 400 ''Token is required''
         | Some t \<Rightarrow>
           if t = [] then reject e 400 ''Token is required''
           else if files d = [] then reject e 400 ''No files provided''
           else if \<not> storeOnline e then reject e 500 ''Internal server error''
           else (case findOne (uploadtokens e) t of
                   None \<Rightarrow> reject e 410 ''Upload link is no longer valid''
                 | Some uploadToken \<Rightarrow>
                   if \<not> isValid (clock e) uploadToken then reject e 410 ''Upload link is no longer valid''
                   else (let remaining = maxUploads uploadToken - uploadsUsed uploadToken in
                     if int (length (files d)) > remaining
                     then reject e 400 (''Only '' @ showInt remaining @ '' upload(s) remaining'')
                     else (case validateTypes (files d) of
                             Some msg \<Rightarrow> reject e 400 msg
                           | None \<Rightarrow>
                             (let r = uploadAll fetched e (userId uploadToken) 0 0 (files d);
                                  uploadResults = fst r;
                                  doc = foldl recordUpload uploadToken (fst (snd r))
                              in \<lparr>res = \<lparr>resStatus = 200,
                                         resBody = ResultsBody uploadResults
                                                     (maxUploads doc - uploadsUsed doc)\<rparr>,
                                  calls = snd (snd r),
                                  updates = [Save doc],
                                  store = applyUpdate (Save doc) (uploadtokens e)\<rparr>))))))"

section \<open>The status check\<close>

record check_request =
  queryToken :: "string option"
  bodyToken :: "string option"

text \<open>\<^verbatim>\<open>req.query.token || (req.body && req.body.token)\<close>\<close>

definition requestToken :: "check_request \<Rightarrow> string option" where
  "requestToken rq =
     (case queryToken rq of
        Some t \<Rightarrow> if t \<noteq> [] then Some t else bodyToken rq
      | None \<Rightarrow> bodyToken rq)"

definition clientName :: "env \<Rightarrow> upload_token \<Rightarrow> string" where
  "clientName e uploadToken =
     (case find (\<lambda>u. user_id u = userId uploadToken) (users e) of
        Some u \<Rightarrow>
          jsTrim ((case firstName u of Some f \<Rightarrow> f | None \<Rightarrow> []) @ '' '' @
                  (case lastName u of Some l \<Rightarrow> l | None \<Rightarrow> []))
      | None \<Rightarrow> ''Customer'')"

definition invalidReason :: "int \<Rightarrow> upload_token \<Rightarrow> string" where
  "invalidReason n uploadToken =
     (if status uploadToken = Revoked then ''revoked''
      else if expiresAt uploadToken < n then ''expired''
      else ''limit_reached'')"

text \<open>
  The status check, in its standalone form (\<^verbatim>\<open>api/tokenCheck/index.js\<close>, inline test)
  and in its mongoose form (\<^verbatim>\<open>isValid()\<close>); \<open>valid\<close> is the validity test used.
\<close>

definition checkWith :: "(int \<Rightarrow> upload_token \<Rightarrow> bool) \<Rightarrow> env \<Rightarrow> check_request \<Rightarrow> response" where
  "checkWith valid e rq =
     (case requestToken rq of
        None \<Rightarrow> \<lparr>resStatus = 400, resBody = ErrorBody ''Token is required''\<rparr>
      | Some t \<Rightarrow>
        if t = [] then \<lparr>resStatus = 400, resBody = ErrorBody ''Token is required''\<rparr>
        else if \<not> storeOnline e then \<lparr>resStatus = 500, resBody = ErrorBody ''Internal server error''\<rparr>
        else (case findOne (uploadtokens e) t of
                None \<Rightarrow> \<lparr>resStatus = 404, resBody = ErrorBody ''Invalid upload link''\<rparr>
              | Some uploadToken \<Rightarrow>
                if \<not> valid (clock e) uploadToken
                then \<lparr>resStatus = 410,
                      resBody = ErrorReasonBody ''Upload link is no longer valid''
                                  (invalidReason (clock e) uploadToken)\<rparr>
                else \<lparr>resStatus = 200,
                      resBody = ValidBody (clientName e uploadToken)
                                  (maxUploads uploadToken - uploadsUsed uploadToken)
                                  (expiresAt uploadToken)\<rparr>))"

definition tokenCheck :: "env \<Rightarrow> check_request \<Rightarrow> response" where
  "tokenCheck e rq = checkWith (\<lambda>n t. \<not> tokenRejected n t) e rq"

definition tokenCheckMongoose :: "env \<Rightarrow> check_request \<Rightarrow> response" where
  "tokenCheckMongoose e rq = checkWith isValid e rq"

section \<open>Sample data\<close>

definition sampleEnv :: env where
  "sampleEnv =
     \<lparr>storeOnline = True, uploadtokens = [sampleToken], users = [],
      clock = 500, pathStamp = (\<lambda>k. 1700000000000 + int k),
      doneStamp = (\<lambda>k. 1700000000500 + int k),
      storage = (\<lambda>j. Response 201 (Some ''https://up.example/s1'')),
      oneDriveUser = ''drive@example.com''\<rparr>"

definition pdfFile :: "string \<Rightarrow> string \<Rightarrow> file_part" where
  "pdfFile nm buf = \<lparr>filename = nm, mimeType = ''application/pdf'', buffer = buf\<rparr>"

definition exeFile :: "string \<Rightarrow> string \<Rightarrow> file_part" where
  "exeFile nm buf = \<lparr>filename = nm, mimeType = ''application/x-msdownload'', buffer = buf\<rparr>"

definition batch :: "file_part list \<Rightarrow> decoded" where
  "batch fs = \<lparr>files = fs, formToken = Some ''tok-1''\<rparr>"

definition flakyStorage :: "nat \<Rightarrow> http_outcome" where
  "flakyStorage j = (if j = 0 then Response 200 (Some ''https://up.example/s1'') else Response 500 None)"

definition failSecond :: "nat \<Rightarrow> http_outcome" where
  "failSecond j = (if j = 1 then Response 503 None else Response 201 None)"

definition twoFiles :: decoded where
  "twoFiles = batch [pdfFile ''a.pdf'' ''AAA'', pdfFile ''b.pdf'' ''BBB'']"

definition bigFile :: file_part where
  "bigFile = pdfFile ''big.pdf'' (replicate 4194305 (CHR ''x''))"

definition downStorage :: "nat \<Rightarrow> http_outcome" where
  "downStorage j = Response 500 None"

definition hugeFile :: file_part where
  "hugeFile = pdfFile ''huge.pdf'' (replicate 52428801 (CHR ''x''))"

definition tokenHeader :: string where
  "tokenHeader = ''Content-Disposition: form-data; name='' @ [dq] @ ''token'' @ [dq]"

definition fileHeader :: "string \<Rightarrow> string \<Rightarrow> string" where
  "fileHeader nm mt =
     ''Content-Disposition: form-data; name='' @ [dq] @ ''files'' @ [dq] @ ''; filename='' @ [dq] @ nm @ [dq]
     @ CRLF @ ''Content-Type: '' @ mt"

definition tokenPart :: "string \<times> string" where
  "tokenPart = (tokenHeader, '' abc123 '')"

definition pdfPart :: "string \<times> string" where
  "pdfPart = (fileHeader ''a.pdf'' ''application/pdf'', ''%PDF-1.7 --X'')"

definition pngPart :: "string \<times> string" where
  "pngPart = (fileHeader ''b.png'' ''image/png'', CHR 0x89 # ''PNG'' @ CRLF @ CRLF @ ''IHDR'')"

section \<open>Decimal rendering\<close>

lemma digitValue_digitChar: "d < 10 \<Longrightarrow> digitValue (digitChar d) = d"
proof -
  assume "d < 10"
  then have "d = 0 \<or> d = 1 \<or> d = 2 \<or> d = 3 \<or> d = 4 \<or> d = 5 \<or> d = 6 \<or> d = 7 \<or> d = 8 \<or> d = 9"
    by arith
  then show ?thesis
    by (elim disjE) (simp_all add: digitChar_def digitValue_def)
qed

lemma readNat_showNat: "readNat (showNat n) = n"
proof (induction n rule: showNat.induct)
  case (1 n)
  show ?case
  proof (cases "n < 10")
    case True
    then show ?thesis
      by (simp add: showNat.simps[of n] readNat_def digitValue_digitChar)
  next
    case False
    with "1.IH" have "readNat (showNat (n div 10)) = n div 10" by simp
    with False show ?thesis
      by (simp add: showNat.simps[of n] readNat_def digitValue_digitChar)
  qed
qed

section \<open>Token validity\<close>

text \<open>
  C1 (as amended). The validity check returns true exactly when the status is not revoked,
  the expiry instant is not before now (\<open>now \<le> expiresAt\<close>: a token is still valid at
  the very instant it expires), and \<open>uploadsUsed < maxUploads\<close>. The inline test of the
  standalone handlers rejects exactly the tokens \<open>isValid\<close> refuses.
\<close>

theorem isValid_iff:
  "isValid now t = (status t \<noteq> Revoked \<and> now \<le> expiresAt t \<and> uploadsUsed t < maxUploads t)
   \<and> tokenRejected now t = (\<not> isValid now t)"
  by (auto simp: isValid_def tokenRejected_def)

theorem isValid_iff_witness:
  "isValid 1000 sampleToken \<and> \<not> tokenRejected 1000 sampleToken
   \<and> \<not> isValid 1001 sampleToken \<and> tokenRejected 1001 sampleToken
   \<and> \<not> isValid 1000 (sampleToken\<lparr>status := Revoked\<rparr>)
   \<and> \<not> isValid 1000 (sampleToken\<lparr>uploadsUsed := 3\<rparr>)"
  using isValid_iff [of 1000 sampleToken] isValid_iff [of 1001 sampleToken]
    isValid_iff [of 1000 "sampleToken\<lparr>status := Revoked\<rparr>"]
    isValid_iff [of 1000 "sampleToken\<lparr>uploadsUsed := 3\<rparr>"]
  by (simp add: sampleToken_def)

text \<open>
  The claim as stated asks for \<open>now < expiresAt\<close>. At \<open>now = expiresAt\<close> the code
  still accepts the token.
\<close>

theorem isValid_strict_expiry_counterexample:
  "\<not> (isValid 1000 sampleToken =
        (status sampleToken \<noteq> Revoked \<and> 1000 < expiresAt sampleToken
         \<and> uploadsUsed sampleToken < maxUploads sampleToken))"
  by (simp add: isValid_def sampleToken_def)

section \<open>Requests without a boundary\<close>

text \<open>
  C4 (as amended). For every request whose \<^verbatim>\<open>Content-Type\<close> header holds no boundary that
  the decoder can extract, the standalone upload endpoint answers 500 with the generic
  "Internal server error": the decoder's exception is caught by the handler's outer catch.
  This happens before any token or file validation: whatever the body and the Token Store
  are, no storage call is made and the store is left as it was.
\<close>

theorem no_boundary_is_internal_error:
  assumes "boundaryMatch (case contentType req of Some ct \<Rightarrow> ct | None \<Rightarrow> []) = None"
  shows "parseMultipart req = Inl NoBoundaryFound
         \<and> uploadHandler e req =
             \<lparr>res = \<lparr>resStatus = 500, resBody = ErrorBody ''Internal server error''\<rparr>,
              calls = [], updates = [], store = uploadtokens e\<rparr>"
  using assms by (simp add: uploadHandler_def parseMultipart_def reject_def)

lemma boundaryMatch_no_parameter: "boundaryMatch ''multipart/form-data'' = None"
  by (simp add: boundaryMatch_def boundaryAt_def)

theorem no_boundary_is_internal_error_witness:
  "uploadHandler sampleEnv \<lparr>contentType = Some ''multipart/form-data'', body = Some ''token=tok-1''\<rparr> =
     \<lparr>res = \<lparr>resStatus = 500, resBody = ErrorBody ''Internal server error''\<rparr>,
      calls = [], updates = [], store = uploadtokens sampleEnv\<rparr>"
  using no_boundary_is_internal_error
    [of "\<lparr>contentType = Some ''multipart/form-data'', body = Some ''token=tok-1''\<rparr>" sampleEnv]
  by (simp add: boundaryMatch_no_parameter)

text \<open>The claim as stated asks for status 400; the status is 500.\<close>

theorem no_boundary_not_400_counterexample:
  "boundaryMatch ''multipart/form-data'' = None \<and>
   resStatus (res (uploadHandler sampleEnv
     \<lparr>contentType = Some ''multipart/form-data'', body = Some ''token=tok-1''\<rparr>)) \<noteq> 400"
  by (simp add: boundaryMatch_no_parameter uploadHandler_def parseMultipart_def reject_def)

section \<open>More files than the quota leaves\<close>

text \<open>
  C8. For every request with a valid token (present, found in a reachable store, not
  rejected by the validity check) whose number of decoded files exceeds
  \<open>remaining = maxUploads - uploadsUsed\<close>, both upload handlers answer 400 with the message
  "Only <remaining> upload(s) remaining", make no storage call and leave the store untouched.
\<close>

theorem too_many_files_rejected:
  assumes "formToken d = Some t" and "t \<noteq> []" and "storeOnline e"
    and "findOne (uploadtokens e) t = Some ut" and "isValid (clock e) ut"
    and "int (length (files d)) > maxUploads ut - uploadsUsed ut"
  shows "processUpload e d =
           \<lparr>res = \<lparr>resStatus = 400,
                   resBody = ErrorBody (''Only '' @ showInt (maxUploads ut - uploadsUsed ut) @
                                        '' upload(s) remaining'')\<rparr>,
            calls = [], updates = [], store = uploadtokens e\<rparr>
         \<and> uploadHandlerLib e (Some d) = processUpload e d"
proof -
  from assms(5) have v: "\<not> tokenRejected (clock e) ut" and q: "uploadsUsed ut < maxUploads ut"
    by (auto simp: isValid_def tokenRejected_def split: if_splits)
  from q assms(6) have ne: "files d \<noteq> []" by auto
  show ?thesis
    using assms v ne by (simp add: processUpload_def uploadHandlerLib_def reject_def)
qed

theorem too_many_files_rejected_witness:
  "processUpload sampleEnv (batch [pdfFile ''a.pdf'' ''A'', pdfFile ''b.pdf'' ''B'', pdfFile ''c.pdf'' ''C'']) =
     \<lparr>res = \<lparr>resStatus = 400, resBody = ErrorBody ''Only 2 upload(s) remaining''\<rparr>,
      calls = [], updates = [], store = [sampleToken]\<rparr>
   \<and> uploadHandlerLib sampleEnv
        (Some (batch [pdfFile ''a.pdf'' ''A'', pdfFile ''b.pdf'' ''B'', pdfFile ''c.pdf'' ''C''])) =
     \<lparr>res = \<lparr>resStatus = 400, resBody = ErrorBody ''Only 2 upload(s) remaining''\<rparr>,
      calls = [], updates = [], store = [sampleToken]\<rparr>"
  using too_many_files_rejected
    [of "batch [pdfFile ''a.pdf'' ''A'', pdfFile ''b.pdf'' ''B'', pdfFile ''c.pdf'' ''C'']"
        "''tok-1''" sampleEnv sampleToken]
  by (simp add: batch_def sampleEnv_def sampleToken_def findOne_def isValid_def showInt_def
      showNat.simps digitChar_def)

section \<open>Unknown tokens\<close>



text \<open>
  A token that is found but not valid gets the same 410 from both upload handlers as an
  unknown one; the status check tells the two apart (410 with a reason against 404).
\<close>

lemma invalid_token_same_410:
  assumes "t \<noteq> []" and "storeOnline e" and "findOne (uploadtokens e) t = Some ut"
    and "\<not> isValid (clock e) ut"
    and "requestToken rq = Some t" and "formToken d = Some t" and "files d \<noteq> []"
  shows "processUpload e d =
           \<lparr>res = \<lparr>resStatus = 410, resBody = ErrorBody ''Upload link is no longer valid''\<rparr>,
            calls = [], updates = [], store = uploadtokens e\<rparr>
         \<and> uploadHandlerLib e (Some d) = processUpload e d
         \<and> tokenCheck e rq =
             \<lparr>resStatus = 410,
              resBody = ErrorReasonBody ''Upload link is no longer valid'' (invalidReason (clock e) ut)\<rparr>
         \<and> tokenCheckMongoose e rq = tokenCheck e rq"
proof -
  from assms(4) have "tokenRejected (clock e) ut"
    by (auto simp: isValid_def tokenRejected_def split: if_splits)
  with assms show ?thesis
    by (simp add: tokenCheck_def tokenCheckMongoose_def checkWith_def processUpload_def
        uploadHandlerLib_def reject_def)
qed

section \<open>Files of a type that is not allowed\<close>

lemma validateTypes_find:
  "validateTypes fs =
     map_option (\<lambda>f. ''File type not allowed: '' @ filename f @ ''. Accepted: PDF, JPEG, PNG, TIFF, DOCX'')
       (find (\<lambda>f. mimeType f \<notin> set ALLOWED_MIME_TYPES) fs)"
  by (induction fs) auto

lemma validateFiles_find:
  "validateFiles fs =
     map_option (\<lambda>f. if mimeType f \<in> set ALLOWED_MIME_TYPES
                     then ''File too large: '' @ filename f @ ''. Max 50MB.''
                     else ''File type not allowed: '' @ filename f)
       (find (\<lambda>f. mimeType f \<notin> set ALLOWED_MIME_TYPES \<or> MAX_FILE_SIZE < length (buffer f)) fs)"
  by (induction fs) auto

lemma find_either_Some:
  "find P fs = Some g \<Longrightarrow> \<exists>f. find (\<lambda>f. P f \<or> Q f) fs = Some f"
  by (induction fs) (auto split: if_splits)

lemma find_either_same:
  "find P fs = Some g \<Longrightarrow> \<forall>f \<in> set (takeWhile (\<lambda>f. \<not> P f) fs). \<not> Q f \<Longrightarrow>
   find (\<lambda>f. P f \<or> Q f) fs = Some g"
  by (induction fs) (auto split: if_splits)

text \<open>
  C9 (as amended). In a request that passed the token and quota checks and holds a file whose
  declared type is not in the allow-list, let \<open>g\<close> be the first such file. Both handlers
  answer 400, make no storage call and leave the store untouched, so the whole batch is
  rejected. The library handler names \<open>g\<close>. The standalone handler validates file by file,
  type and then size, and names the first file that fails either test, with "File too large"
  when that file has an allowed type: it names \<open>g\<close> whenever no file before \<open>g\<close> is larger than
  50 MiB.
\<close>

theorem disallowed_type_rejects_batch:
  assumes "formToken d = Some t" and "t \<noteq> []" and "storeOnline e"
    and "findOne (uploadtokens e) t = Some ut" and "isValid (clock e) ut"
    and "int (length (files d)) \<le> maxUploads ut - uploadsUsed ut"
    and "find (\<lambda>f. mimeType f \<notin> set ALLOWED_MIME_TYPES) (files d) = Some g"
  shows "uploadHandlerLib e (Some d) =
           \<lparr>res = \<lparr>resStatus = 400,
                   resBody = ErrorBody (''File type not allowed: '' @ filename g @
                                        ''. Accepted: PDF, JPEG, PNG, TIFF, DOCX'')\<rparr>,
            calls = [], updates = [], store = uploadtokens e\<rparr>
         \<and> resStatus (res (processUpload e d)) = 400
         \<and> calls (processUpload e d) = [] \<and> updates (processUpload e d) = []
         \<and> store (processUpload e d) = uploadtokens e
         \<and> (\<exists>f. find (\<lambda>f. mimeType f \<notin> set ALLOWED_MIME_TYPES \<or> MAX_FILE_SIZE < length (buffer f))
                   (files d) = Some f
                \<and> resBody (res (processUpload e d)) =
                    ErrorBody (if mimeType f \<in> set ALLOWED_MIME_TYPES
                               then ''File too large: '' @ filename f @ ''. Max 50MB.''
                               else ''File type not allowed: '' @ filename f))
         \<and> ((\<forall>f \<in> set (takeWhile (\<lambda>f. mimeType f \<in> set ALLOWED_MIME_TYPES) (files d)).
                length (buffer f) \<le> MAX_FILE_SIZE)
              \<longrightarrow> resBody (res (processUpload e d)) = ErrorBody (''File type not allowed: '' @ filename g))"
proof -
  let ?bad = "\<lambda>f. mimeType f \<notin> set ALLOWED_MIME_TYPES"
  let ?big = "\<lambda>f. MAX_FILE_SIZE < length (buffer f)"
  from assms(5) have v: "\<not> tokenRejected (clock e) ut"
    by (auto simp: isValid_def tokenRejected_def split: if_splits)
  from assms(7) have ne: "files d \<noteq> []" by auto
  from assms(7) have g_bad: "?bad g" by (auto dest: find_Some_iff[THEN iffD1])
  from find_either_Some[OF assms(7), of ?big]
  obtain f where f: "find (\<lambda>f. ?bad f \<or> ?big f) (files d) = Some f" by blast
  have lib: "uploadHandlerLib e (Some d) =
      \<lparr>res = \<lparr>resStatus = 400,
              resBody = ErrorBody (''File type not allowed: '' @ filename g @
                                   ''. Accepted: PDF, JPEG, PNG, TIFF, DOCX'')\<rparr>,
       calls = [], updates = [], store = uploadtokens e\<rparr>"
    using assms ne by (simp add: uploadHandlerLib_def reject_def validateTypes_find)
  have sa: "processUpload e d =
      reject e 400 (if mimeType f \<in> set ALLOWED_MIME_TYPES
                    then ''File too large: '' @ filename f @ ''. Max 50MB.''
                    else ''File type not allowed: '' @ filename f)"
    using assms(1-4,6) v ne f by (simp add: processUpload_def validateFiles_find)
  have same: "(\<forall>f \<in> set (takeWhile (\<lambda>f. mimeType f \<in> set ALLOWED_MIME_TYPES) (files d)).
                 length (buffer f) \<le> MAX_FILE_SIZE) \<longrightarrow> f = g"
  proof
    assume "\<forall>f \<in> set (takeWhile (\<lambda>f. mimeType f \<in> set ALLOWED_MIME_TYPES) (files d)).
              length (buffer f) \<le> MAX_FILE_SIZE"
    then have "\<forall>f \<in> set (takeWhile (\<lambda>f. \<not> ?bad f) (files d)). \<not> ?big f"
      by (simp add: not_less)
    from find_either_same[OF assms(7), of ?big, OF this] f show "f = g" by simp
  qed
  show ?thesis
    using lib sa f same g_bad by (auto simp: reject_def)
qed

theorem disallowed_type_rejects_batch_witness:
  "uploadHandlerLib sampleEnv (Some (batch [pdfFile ''a.pdf'' ''A'', exeFile ''x.exe'' ''MZ''])) =
     \<lparr>res = \<lparr>resStatus = 400,
             resBody = ErrorBody ''File type not allowed: x.exe. Accepted: PDF, JPEG, PNG, TIFF, DOCX''\<rparr>,
      calls = [], updates = [], store = [sampleToken]\<rparr>
   \<and> res (processUpload sampleEnv (batch [pdfFile ''a.pdf'' ''A'', exeFile ''x.exe'' ''MZ''])) =
       \<lparr>resStatus = 400, resBody = ErrorBody ''File type not allowed: x.exe''\<rparr>
   \<and> calls (processUpload sampleEnv (batch [pdfFile ''a.pdf'' ''A'', exeFile ''x.exe'' ''MZ''])) = []"
  using disallowed_type_rejects_batch
    [of "batch [pdfFile ''a.pdf'' ''A'', exeFile ''x.exe'' ''MZ'']" "''tok-1''" sampleEnv sampleToken
        "exeFile ''x.exe'' ''MZ''"]
  by (simp add: batch_def sampleEnv_def sampleToken_def findOne_def isValid_def pdfFile_def
      exeFile_def ALLOWED_MIME_TYPES_def MAX_FILE_SIZE_def processUpload_def tokenRejected_def
      reject_def)

text \<open>
  The claim as stated has the first file of a disallowed type named in every such batch. With
  a PDF of 52428801 bytes in front of it, the standalone handler names the PDF.
\<close>

theorem disallowed_type_named_file_counterexample:
  "find (\<lambda>f. mimeType f \<notin> set ALLOWED_MIME_TYPES) (files (batch [hugeFile, exeFile ''x.exe'' ''MZ''])) =
     Some (exeFile ''x.exe'' ''MZ'')
   \<and> processUpload sampleEnv (batch [hugeFile, exeFile ''x.exe'' ''MZ'']) =
       \<lparr>res = \<lparr>resStatus = 400, resBody = ErrorBody ''File too large: huge.pdf. Max 50MB.''\<rparr>,
        calls = [], updates = [], store = [sampleToken]\<rparr>
   \<and> resBody (res (processUpload sampleEnv (batch [hugeFile, exeFile ''x.exe'' ''MZ'']))) \<noteq>
       ErrorBody ''File type not allowed: x.exe''"
  by (simp add: sampleEnv_def sampleToken_def batch_def pdfFile_def exeFile_def hugeFile_def
      findOne_def tokenRejected_def ALLOWED_MIME_TYPES_def
      MAX_FILE_SIZE_def processUpload_def reject_def)

section \<open>The chunk loop\<close>

lemma chunkSize_pos: "0 < chunkSize" by (simp add: chunkSize_def)

lemma chunkLoop_prefix:
  "\<exists>m. fst (chunkLoop putOk st j url buf i sent) =
         sent @ take m (map (chunkCall url buf) (chunkRanges i (length buf)))"
proof (induction putOk st j url buf i sent rule: chunkLoop.induct)
  case (1 putOk st j url buf i sent)
  let ?call = "RawPut url (slice buf i (min (i + chunkSize) (length buf)))
                 (contentRange i (min (i + chunkSize - 1) (length buf - 1)) (length buf))"
  show ?case
  proof (cases "i < length buf")
    case False
    then have "fst (chunkLoop putOk st j url buf i sent) =
               sent @ take 0 (map (chunkCall url buf) (chunkRanges i (length buf)))"
      by (simp add: chunkLoop.simps[of _ _ _ _ _ i])
    then show ?thesis by blast
  next
    case lt: True
    have rs: "map (chunkCall url buf) (chunkRanges i (length buf)) =
              ?call # map (chunkCall url buf) (chunkRanges (i + chunkSize) (length buf))"
      using lt by (simp add: chunkRanges.simps[of i] chunkCall_def)
    show ?thesis
    proof (cases "putOk (st (j + length sent))")
      case False
      have "fst (chunkLoop putOk st j url buf i sent) =
            sent @ take 1 (map (chunkCall url buf) (chunkRanges i (length buf)))"
        using lt False by (simp add: chunkLoop.simps[of _ _ _ _ _ i] rs Let_def)
      then show ?thesis by blast
    next
      case True
      from "1.IH"[OF lt refl refl refl True] obtain m where
        m: "fst (chunkLoop putOk st j url buf (i + chunkSize) (sent @ [?call])) =
            (sent @ [?call]) @ take m (map (chunkCall url buf) (chunkRanges (i + chunkSize) (length buf)))"
        by blast
      have "fst (chunkLoop putOk st j url buf i sent) =
            sent @ take (Suc m) (map (chunkCall url buf) (chunkRanges i (length buf)))"
        using lt True m by (simp add: chunkLoop.simps[of _ _ _ _ _ i] rs Let_def)
      then show ?thesis by blast
    qed
  qed
qed

lemma chunkLoop_all_ok:
  "\<forall>k. putOk (st k) \<Longrightarrow>
   chunkLoop putOk st j url buf i sent =
     (sent @ map (chunkCall url buf) (chunkRanges i (length buf)), True)"
proof (induction putOk st j url buf i sent rule: chunkLoop.induct)
  case (1 putOk st j url buf i sent)
  show ?case
  proof (cases "i < length buf")
    case False
    then show ?thesis
      by (simp add: chunkLoop.simps[of _ _ _ _ _ i] chunkRanges.simps[of i])
  next
    case lt: True
    from "1.prems" have ok: "putOk (st (j + length sent))" by simp
    from "1.IH"[OF lt refl refl refl ok "1.prems"] lt ok show ?thesis
      by (simp add: chunkLoop.simps[of _ _ _ _ _ i] chunkRanges.simps[of i] chunkCall_def Let_def)
  qed
qed

lemma chunkLoop_failure:
  "\<exists>c. length sent \<le> c \<and> c < length (fst (chunkLoop putOk st j url buf i sent)) \<and> \<not> putOk (st (j + c))
   \<Longrightarrow> \<not> snd (chunkLoop putOk st j url buf i sent)"
proof (induction putOk st j url buf i sent rule: chunkLoop.induct)
  case (1 putOk st j url buf i sent)
  show ?case
  proof (cases "i < length buf")
    case False
    with "1.prems" show ?thesis by (auto simp add: chunkLoop.simps[of _ _ _ _ _ i])
  next
    case lt: True
    show ?thesis
    proof (cases "putOk (st (j + length sent))")
      case False
      with lt show ?thesis by (simp add: chunkLoop.simps[of _ _ _ _ _ i] Let_def)
    next
      case True
      let ?call = "RawPut url (slice buf i (min (i + chunkSize) (length buf)))
                     (contentRange i (min (i + chunkSize - 1) (length buf - 1)) (length buf))"
      from "1.prems" obtain c where c: "length sent \<le> c"
        "c < length (fst (chunkLoop putOk st j url buf i sent))" "\<not> putOk (st (j + c))" by blast
      from c(3) True have "c \<noteq> length sent" by auto
      with c(1) have c1: "length (sent @ [?call]) \<le> c" by simp
      from c(2) lt True have c2: "c < length (fst (chunkLoop putOk st j url buf (i + chunkSize) (sent @ [?call])))"
        by (simp add: chunkLoop.simps[of _ _ _ _ _ i] Let_def)
      from "1.IH"[OF lt refl refl refl True] c1 c2 c(3)
      have "\<not> snd (chunkLoop putOk st j url buf (i + chunkSize) (sent @ [?call]))" by blast
      with lt True show ?thesis by (simp add: chunkLoop.simps[of _ _ _ _ _ i] Let_def)
    qed
  qed
qed

lemma chunkRanges_tiles: "i \<le> n \<Longrightarrow> tiles i (chunkRanges i n) n"
proof (induction i n rule: chunkRanges.induct)
  case (1 i n)
  show ?case
  proof (cases "i < n")
    case False
    then have "chunkRanges i n = []" by (simp add: chunkRanges.simps[of i n])
    with False "1.prems" show ?thesis by simp
  next
    case lt: True
    define e where "e = min (i + chunkSize - 1) (n - 1)"
    have unfold: "chunkRanges i n = (i, e) # chunkRanges (i + chunkSize) n"
      using lt by (simp add: chunkRanges.simps[of i n] e_def)
    show ?thesis
    proof (cases "i + chunkSize \<le> n")
      case True
      with chunkSize_pos have s: "Suc e = i + chunkSize" and b: "i \<le> e" "e < n"
        by (auto simp: e_def)
      from "1.IH"[OF lt True] show ?thesis by (simp add: unfold s b)
    next
      case False
      then have nil: "chunkRanges (i + chunkSize) n = []"
        by (simp add: chunkRanges.simps[of "i + chunkSize" n])
      from False lt have s: "Suc e = n" and b: "i \<le> e" "e < n"
        by (auto simp: e_def)
      show ?thesis by (simp add: unfold nil s b)
    qed
  qed
qed

lemma tiles_sum: "tiles a rs n \<Longrightarrow> a + (\<Sum>r\<leftarrow>rs. Suc (snd r) - fst r) = n"
proof (induction rs arbitrary: a)
  case Nil
  then show ?case by simp
next
  case (Cons r rs)
  from Cons.prems have t: "tiles (Suc (snd r)) rs n" and a: "fst r = a" and le: "fst r \<le> snd r"
    by auto
  from Cons.IH[OF t] a le show ?case by simp
qed

lemma tiles_sorted: "tiles a rs n \<Longrightarrow> sorted_wrt (<) (map fst rs) \<and> (\<forall>r \<in> set rs. a \<le> fst r)"
proof (induction rs arbitrary: a)
  case Nil then show ?case by simp
next
  case (Cons r rs)
  then have t: "tiles (Suc (snd r)) rs n" and le: "fst r \<le> snd r" and a: "fst r = a" by auto
  from Cons.IH[OF t] le a show ?case by fastforce
qed

lemma chunkRanges_sizes:
  "\<forall>r \<in> set (chunkRanges i n). Suc (snd r) - fst r \<le> chunkSize"
proof (induction i n rule: chunkRanges.induct)
  case (1 i n)
  show ?case
  proof (cases "i < n")
    case False
    then show ?thesis by (simp add: chunkRanges.simps[of i])
  next
    case True
    with "1.IH"[OF True] chunkSize_pos show ?thesis
      by (auto simp add: chunkRanges.simps[of i] min_def)
  qed
qed

lemma chunkRanges_full:
  "\<forall>r \<in> set (butlast (chunkRanges i n)). Suc (snd r) - fst r = chunkSize"
proof (induction i n rule: chunkRanges.induct)
  case (1 i n)
  show ?case
  proof (cases "i < n")
    case False
    then show ?thesis by (simp add: chunkRanges.simps[of i])
  next
    case lt: True
    show ?thesis
    proof (cases "i + chunkSize < n")
      case True
      with "1.IH"[OF lt] lt chunkSize_pos show ?thesis
        by (auto simp add: chunkRanges.simps[of i] min_def)
    next
      case False
      then have "chunkRanges (i + chunkSize) n = []" by (simp add: chunkRanges.simps[of "i + chunkSize"])
      with lt show ?thesis by (simp add: chunkRanges.simps[of i])
    qed
  qed
qed

lemma chunkRanges_concat:
  "i \<le> length buf \<Longrightarrow>
   concat (map (\<lambda>r. slice buf (fst r) (min (fst r + chunkSize) (length buf))) (chunkRanges i (length buf)))
     = drop i buf"
proof (induction i "length buf" rule: chunkRanges.induct)
  case (1 i)
  show ?case
  proof (cases "i < length buf")
    case False
    then have "chunkRanges i (length buf) = []" by (simp add: chunkRanges.simps[of i])
    with False "1.prems" show ?thesis by simp
  next
    case lt: True
    show ?thesis
    proof (cases "i + chunkSize \<le> length buf")
      case True
      have "take chunkSize (drop i buf) @ drop (i + chunkSize) buf = drop i buf"
        by (metis add.commute append_take_drop_id drop_drop)
      with "1.hyps"[OF lt True] lt True show ?thesis
        by (simp add: chunkRanges.simps[of i] slice_def min_def)
    next
      case False
      then have "chunkRanges (i + chunkSize) (length buf) = []"
        by (simp add: chunkRanges.simps[of "i + chunkSize"])
      with False lt show ?thesis
        by (simp add: chunkRanges.simps[of i] slice_def min_def)
    qed
  qed
qed

section \<open>Uploading one file\<close>

lemma uploadFile_small:
  "length (buffer f) \<le> 4194304 \<Longrightarrow>
   uploadFile putOk st j u p f =
     ([GraphPut (''/users/'' @ u @ ''/drive/root:/'' @ p @ '':/content'') (buffer f)], resolves (st j))"
  by (simp add: uploadFile_def)

lemma uploadFile_large_head:
  "4194304 < length (buffer f) \<Longrightarrow>
   \<exists>rest. fst (uploadFile putOk st j u p f) =
     GraphPost (''/users/'' @ u @ ''/drive/root:/'' @ p @ '':/createUploadSession'') (filename f) # rest"
  by (simp add: uploadFile_def Let_def split: option.splits)

lemma uploadFile_large_prefix:
  assumes "4194304 < length (buffer f)" and "resolves (st j)" and "uploadUrl (st j) = Some url"
  shows "\<exists>m. fst (uploadFile putOk st j u p f) =
     GraphPost (''/users/'' @ u @ ''/drive/root:/'' @ p @ '':/createUploadSession'') (filename f) #
     take m (map (chunkCall url (buffer f)) (chunkRanges 0 (length (buffer f))))"
proof -
  from chunkLoop_prefix[of putOk st "Suc j" url "buffer f" 0 "[]"] obtain m where
    "fst (chunkLoop putOk st (Suc j) url (buffer f) 0 []) =
     take m (map (chunkCall url (buffer f)) (chunkRanges 0 (length (buffer f))))" by auto
  with assms show ?thesis by (auto simp: uploadFile_def Let_def)
qed

lemma uploadFile_large_all_ok:
  assumes "4194304 < length (buffer f)" and "resolves (st j)" and "uploadUrl (st j) = Some url"
    and "\<forall>k. putOk (st k)"
  shows "uploadFile putOk st j u p f =
     (GraphPost (''/users/'' @ u @ ''/drive/root:/'' @ p @ '':/createUploadSession'') (filename f) #
      map (chunkCall url (buffer f)) (chunkRanges 0 (length (buffer f))), True)"
  using assms by (simp add: uploadFile_def Let_def chunkLoop_all_ok)

lemma uploadFile_calls_nonempty: "fst (uploadFile putOk st j u p f) \<noteq> []"
  by (simp add: uploadFile_def Let_def split: option.splits)

text \<open>With \<open>rawPut\<close>, a storage call of the file that does not resolve fails the file.\<close>

lemma uploadFile_failure:
  assumes "c < length (fst (uploadFile resolves st j u p f))" and "\<not> resolves (st (j + c))"
  shows "\<not> snd (uploadFile resolves st j u p f)"
proof (cases "length (buffer f) \<le> 4194304")
  case True
  with assms show ?thesis by (simp add: uploadFile_def)
next
  case large: False
  show ?thesis
  proof (cases "resolves (st j)")
    case False
    with large show ?thesis by (simp add: uploadFile_def Let_def)
  next
    case ok: True
    show ?thesis
    proof (cases "uploadUrl (st j)")
      case None
      with large ok show ?thesis by (simp add: uploadFile_def Let_def)
    next
      case (Some url)
      let ?r = "chunkLoop resolves st (Suc j) url (buffer f) 0 []"
      from large ok Some have eq: "uploadFile resolves st j u p f = (GraphPost
          (''/users/'' @ u @ ''/drive/root:/'' @ p @ '':/createUploadSession'') (filename f) # fst ?r, snd ?r)"
        by (simp add: uploadFile_def Let_def)
      from assms(2) ok have "c \<noteq> 0" by (cases c) auto
      then obtain c' where c': "c = Suc c'" by (cases c) auto
      with assms eq have "c' < length (fst ?r)" "\<not> resolves (st (Suc j + c'))" by auto
      with chunkLoop_failure[of "[]" resolves st "Suc j" url "buffer f" 0]
      have "\<not> snd ?r" by auto
      with eq show ?thesis by simp
    qed
  qed
qed

text \<open>With \<open>fetch\<close>, a chunk PUT that is answered, whatever the status, lets the file pass.\<close>

lemma chunkLoop_fetched:
  "\<forall>k. fetched (st k) \<Longrightarrow> snd (chunkLoop fetched st j url buf i sent)"
  by (simp add: chunkLoop_all_ok)

lemma uploadFile_all_ok:
  assumes "\<forall>k. resolves (st k) \<and> putOk (st k) \<and> uploadUrl (st k) \<noteq> None"
  shows "snd (uploadFile putOk st j u p f)"
proof -
  from assms have "uploadUrl (st j) \<noteq> None" by blast
  then obtain url where "uploadUrl (st j) = Some url" by blast
  with assms show ?thesis by (simp add: uploadFile_def Let_def chunkLoop_all_ok)
qed

section \<open>Small and large payloads\<close>

lemmas sample_defs = sampleEnv_def sampleToken_def batch_def pdfFile_def exeFile_def twoFiles_def
  failSecond_def flakyStorage_def

lemmas eval_defs = findOne_def isValid_def tokenRejected_def ALLOWED_MIME_TYPES_def MAX_FILE_SIZE_def
  processUpload_def uploadHandlerLib_def reject_def uploadFile_def resolves_def fetched_def uploadUrl_def
  showInt_def showNat.simps digitChar_def recordUpload_def Let_def

text \<open>
  C6. In both handlers a file goes through \<open>uploadFile\<close>. A payload of at most 4194304
  bytes (4 MiB, so also one of exactly that size) is sent by a single direct PUT to the content
  path. Any larger payload (from 4194305 bytes on) first creates an upload session; the chunk
  PUTs that follow are an initial segment of the planned chunks, in their order, and all of
  them when every call succeeds. The planned ranges \<open>chunkRanges 0 n\<close> start at 0, each starts
  right after the one before, the last ends at \<open>n - 1\<close>; their starts increase strictly, their
  sizes sum to \<open>n\<close>, every size is at most 4 MiB and every one but the last is exactly 4 MiB;
  the chunks put together are the buffer. Each chunk carries the header
  \<^verbatim>\<open>bytes {start}-{end}/{n}\<close> (\<open>chunkCall\<close>, \<open>contentRange\<close>).
\<close>

theorem upload_path_by_size:
  "(length (buffer f) \<le> 4194304 \<longrightarrow>
      fst (uploadFile putOk st j u p f) =
        [GraphPut (''/users/'' @ u @ ''/drive/root:/'' @ p @ '':/content'') (buffer f)])
   \<and> (4194304 < length (buffer f) \<longrightarrow>
        (\<exists>rest. fst (uploadFile putOk st j u p f) =
           GraphPost (''/users/'' @ u @ ''/drive/root:/'' @ p @ '':/createUploadSession'') (filename f) # rest)
      \<and> (\<forall>url. resolves (st j) \<and> uploadUrl (st j) = Some url \<longrightarrow>
            (\<exists>m. fst (uploadFile putOk st j u p f) =
               GraphPost (''/users/'' @ u @ ''/drive/root:/'' @ p @ '':/createUploadSession'') (filename f) #
               take m (map (chunkCall url (buffer f)) (chunkRanges 0 (length (buffer f))))))
      \<and> (\<forall>url. resolves (st j) \<and> uploadUrl (st j) = Some url \<and> (\<forall>k. putOk (st k)) \<longrightarrow>
            uploadFile putOk st j u p f =
              (GraphPost (''/users/'' @ u @ ''/drive/root:/'' @ p @ '':/createUploadSession'') (filename f) #
               map (chunkCall url (buffer f)) (chunkRanges 0 (length (buffer f))), True)))
   \<and> tiles 0 (chunkRanges 0 (length (buffer f))) (length (buffer f))
   \<and> sorted_wrt (<) (map fst (chunkRanges 0 (length (buffer f))))
   \<and> (\<Sum>r\<leftarrow>chunkRanges 0 (length (buffer f)). Suc (snd r) - fst r) = length (buffer f)
   \<and> (\<forall>r \<in> set (chunkRanges 0 (length (buffer f))). Suc (snd r) - fst r \<le> 4194304)
   \<and> (\<forall>r \<in> set (butlast (chunkRanges 0 (length (buffer f)))). Suc (snd r) - fst r = 4194304)
   \<and> concat (map (\<lambda>r. slice (buffer f) (fst r) (min (fst r + chunkSize) (length (buffer f))))
               (chunkRanges 0 (length (buffer f)))) = buffer f
   \<and> (\<forall>url r. chunkCall url (buffer f) r =
          RawPut url (slice (buffer f) (fst r) (min (fst r + 4194304) (length (buffer f))))
            (''bytes '' @ showNat (fst r) @ ''-'' @ showNat (snd r) @ ''/'' @
             showNat (length (buffer f))))"
proof -
  let ?n = "length (buffer f)"
  have t: "tiles 0 (chunkRanges 0 ?n) ?n" by (rule chunkRanges_tiles) simp
  have cs: "chunkSize = 4194304" by (simp add: chunkSize_def)
  show ?thesis
    using uploadFile_small[of f putOk st j u p] uploadFile_large_head[of f putOk st j u p]
      uploadFile_large_prefix[of f st j _ putOk u p] uploadFile_large_all_ok[of f st j _ putOk u p]
      t tiles_sum[OF t] tiles_sorted[OF t] chunkRanges_sizes[of 0 ?n] chunkRanges_full[of 0 ?n]
      chunkRanges_concat[of 0 "buffer f"]
    by (simp add: cs chunkCall_def contentRange_def)
qed

theorem upload_path_by_size_witness:
  "fst (uploadFile resolves (storage sampleEnv) 0 ''u'' ''p''
          (pdfFile ''four.pdf'' (replicate 4194304 (CHR ''x'')))) =
     [GraphPut ''/users/u/drive/root:/p:/content'' (replicate 4194304 (CHR ''x''))]
   \<and> uploadFile resolves (storage sampleEnv) 0 ''u'' ''p'' bigFile =
     ([GraphPost ''/users/u/drive/root:/p:/createUploadSession'' ''big.pdf'',
       RawPut ''https://up.example/s1'' (replicate 4194304 (CHR ''x'')) ''bytes 0-4194303/4194305'',
       RawPut ''https://up.example/s1'' (replicate 1 (CHR ''x'')) ''bytes 4194304-4194304/4194305''],
      True)
   \<and> chunkRanges 0 4194305 = [(0, 4194303), (4194304, 4194304)]
   \<and> tiles 0 (chunkRanges 0 4194305) 4194305"
proof -
  let ?st = "storage sampleEnv"
  let ?four = "pdfFile ''four.pdf'' (replicate 4194304 (CHR ''x''))"
  have r: "chunkRanges 0 4194305 = [(0, 4194303), (4194304, 4194304)]"
    by (simp add: chunkRanges.simps chunkSize_def)
  have h4: "length (buffer ?four) \<le> 4194304" and h5: "4194304 < length (buffer bigFile)"
    and lb: "length (buffer bigFile) = 4194305"
    and s: "resolves (?st 0) \<and> uploadUrl (?st 0) = Some ''https://up.example/s1'' \<and> (\<forall>k. resolves (?st k))"
    by (simp_all add: pdfFile_def bigFile_def sampleEnv_def resolves_def uploadUrl_def)
  from upload_path_by_size[of ?four resolves ?st 0 "''u''" "''p''"] h4
  have a: "fst (uploadFile resolves ?st 0 ''u'' ''p'' ?four) =
     [GraphPut ''/users/u/drive/root:/p:/content'' (replicate 4194304 (CHR ''x''))]"
    by (simp add: pdfFile_def)
  from upload_path_by_size[of bigFile resolves ?st 0 "''u''" "''p''"] h5 s
  have "uploadFile resolves ?st 0 ''u'' ''p'' bigFile =
     (GraphPost ''/users/u/drive/root:/p:/createUploadSession'' (filename bigFile) #
      map (chunkCall ''https://up.example/s1'' (buffer bigFile)) (chunkRanges 0 (length (buffer bigFile))), True)"
    and t: "tiles 0 (chunkRanges 0 (length (buffer bigFile))) (length (buffer bigFile))"
    by simp_all
  then have b: "uploadFile resolves ?st 0 ''u'' ''p'' bigFile =
     ([GraphPost ''/users/u/drive/root:/p:/createUploadSession'' ''big.pdf'',
       RawPut ''https://up.example/s1'' (replicate 4194304 (CHR ''x'')) ''bytes 0-4194303/4194305'',
       RawPut ''https://up.example/s1'' (replicate 1 (CHR ''x'')) ''bytes 4194304-4194304/4194305''],
      True)"
    by (simp add: lb r) (simp add: bigFile_def pdfFile_def chunkCall_def slice_def chunkSize_def
        contentRange_def showNat.simps digitChar_def)
  from a b r t lb show ?thesis by simp
qed


section \<open>The upload loop and the Token Store\<close>

lemma uploadAll_length: "length (fst (uploadAll putOk e uid k j fs)) = length fs"
  by (induction fs arbitrary: k j) (auto simp: Let_def)

lemma uploadAll_filenames: "map resFilename (fst (uploadAll putOk e uid k j fs)) = map filename fs"
  by (induction fs arbitrary: k j) (auto simp: Let_def)

lemma uploadAll_entries:
  "map fileName (fst (snd (uploadAll putOk e uid k j fs))) =
     map resFilename (filter success (fst (uploadAll putOk e uid k j fs)))"
  by (induction fs arbitrary: k j) (auto simp: Let_def)

lemma uploadAll_entries_length:
  "length (fst (snd (uploadAll putOk e uid k j fs))) =
     length (filter success (fst (uploadAll putOk e uid k j fs)))"
  using uploadAll_entries[of putOk e uid k j fs, THEN arg_cong, of length] by simp

lemma uploadAll_failed_shape:
  "r \<in> set (fst (uploadAll putOk e uid k j fs)) \<Longrightarrow> \<not> success r \<Longrightarrow>
   r = \<lparr>resFilename = resFilename r, success = False, resError = Some ''Upload failed''\<rparr>"
  by (induction fs arbitrary: k j) (auto simp: Let_def split: if_splits)

lemma filter_success_le: "length (filter success (fst (uploadAll putOk e uid k j fs))) \<le> length fs"
  using length_filter_le[of success "fst (uploadAll putOk e uid k j fs)"]
  by (simp add: uploadAll_length)

lemma findOne_applyUpdate:
  assumes "distinct (map doc_id coll)" and "findOne coll t = Some ut"
  shows "findOne (applyUpdate (UpdateOne (doc_id ut) n ups) coll) t =
           Some (ut\<lparr>uploadsUsed := uploadsUsed ut + n, uploads := uploads ut @ ups\<rparr>)"
  using assms
proof (induction coll)
  case Nil
  then show ?case by (simp add: findOne_def)
next
  case (Cons d ds)
  show ?case
  proof (cases "token d = t")
    case True
    with Cons.prems show ?thesis by (simp add: findOne_def)
  next
    case False
    with Cons.prems have f: "findOne ds t = Some ut" by (simp add: findOne_def)
    then have "ut \<in> set ds" by (auto simp: findOne_def find_Some_iff)
    with Cons.prems(1) have "doc_id d \<noteq> doc_id ut" by auto
    with Cons.IH f Cons.prems(1) False show ?thesis by (simp add: findOne_def)
  qed
qed

lemma findOne_applySave:
  assumes "distinct (map doc_id coll)" and "findOne coll t = Some ut"
    and "doc_id doc = doc_id ut" and "token doc = token ut"
  shows "findOne (applyUpdate (Save doc) coll) t = Some doc"
  using assms
proof (induction coll)
  case Nil
  then show ?case by (simp add: findOne_def)
next
  case (Cons d ds)
  show ?case
  proof (cases "token d = t")
    case True
    with Cons.prems show ?thesis by (simp add: findOne_def)
  next
    case False
    with Cons.prems have f: "findOne ds t = Some ut" by (simp add: findOne_def)
    then have "ut \<in> set ds" by (auto simp: findOne_def find_Some_iff)
    with Cons.prems(1) have "doc_id d \<noteq> doc_id ut" by auto
    with Cons.IH f Cons.prems False show ?thesis by (simp add: findOne_def)
  qed
qed

lemma applySave_same:
  assumes "distinct (map doc_id coll)" and "findOne coll t = Some ut"
  shows "applyUpdate (Save ut) coll = coll"
  using assms
proof (induction coll)
  case Nil
  then show ?case by simp
next
  case (Cons d ds)
  show ?case
  proof (cases "token d = t")
    case True
    with Cons.prems show ?thesis by (simp add: findOne_def)
  next
    case False
    with Cons.prems have f: "findOne ds t = Some ut" by (simp add: findOne_def)
    then have "ut \<in> set ds" by (auto simp: findOne_def find_Some_iff)
    with Cons.prems(1) have "doc_id d \<noteq> doc_id ut" by auto
    with Cons.IH f Cons.prems False show ?thesis by simp
  qed
qed

lemma foldl_recordUpload:
  "foldl recordUpload doc entries =
     doc\<lparr>uploads := uploads doc @ entries, uploadsUsed := uploadsUsed doc + int (length entries)\<rparr>"
  by (induction entries arbitrary: doc) (auto simp: recordUpload_def)

lemma validateFiles_types: "validateFiles fs = None \<Longrightarrow> validateTypes fs = None"
  by (induction fs) (auto split: if_splits)

lemma valid_not_rejected: "isValid n ut \<Longrightarrow> \<not> tokenRejected n ut"
  by (auto simp: isValid_def tokenRejected_def split: if_splits)

section \<open>The commit\<close>

text \<open>
  What the commit step does with the results the handlers record. Take a request that
  reaches the upload loop: token present, found in a reachable store whose documents have
  distinct \<^verbatim>\<open>_id\<close>s, valid, at least one file, no more files than the quota leaves, every
  file accepted by the validation loop. Let \<open>rs\<close> be the per-file results, \<open>N\<close> their number
  and \<open>S\<close> the number of them flagged as successes. Then \<open>N\<close> is the number of files, exactly
  \<open>S\<close> history entries are staged, and \<open>uploadsUsed + S\<close> does not exceed \<open>maxUploads\<close>. The
  standalone handler issues no store update when \<open>S = 0\<close> and otherwise the single
  \<^verbatim>\<open>updateOne\<close> that increments \<open>uploadsUsed\<close> by \<open>S\<close> and appends the \<open>S\<close> entries. The
  library handler issues the single \<^verbatim>\<open>save()\<close> in every case, of the document with
  \<open>uploadsUsed\<close> raised by \<open>S\<close> and the \<open>S\<close> entries appended. In both, the stored document
  afterwards has \<open>uploadsUsed\<close> raised by exactly \<open>S\<close> and exactly the \<open>S\<close> new entries at the
  end of \<open>uploads\<close>.
\<close>

theorem commit_counts_successes:
  assumes "formToken d = Some t" and "t \<noteq> []" and "storeOnline e"
    and "findOne (uploadtokens e) t = Some ut" and "isValid (clock e) ut"
    and "files d \<noteq> []" and "int (length (files d)) \<le> maxUploads ut - uploadsUsed ut"
    and "validateFiles (files d) = None" and "distinct (map doc_id (uploadtokens e))"
  shows "(\<exists>rs entries.
            length rs = length (files d) \<and> length entries = length (filter success rs)
          \<and> uploadsUsed ut + int (length entries) \<le> maxUploads ut
          \<and> res (processUpload e d) =
              \<lparr>resStatus = 200,
               resBody = ResultsBody rs (maxUploads ut - uploadsUsed ut - int (length entries))\<rparr>
          \<and> updates (processUpload e d) =
              (if entries = [] then [] else [UpdateOne (doc_id ut) (int (length entries)) entries])
          \<and> findOne (store (processUpload e d)) t =
              Some (ut\<lparr>uploadsUsed := uploadsUsed ut + int (length entries),
                       uploads := uploads ut @ entries\<rparr>))
       \<and> (\<exists>rs entries.
            length rs = length (files d) \<and> length entries = length (filter success rs)
          \<and> uploadsUsed ut + int (length entries) \<le> maxUploads ut
          \<and> res (uploadHandlerLib e (Some d)) =
              \<lparr>resStatus = 200,
               resBody = ResultsBody rs (maxUploads ut - (uploadsUsed ut + int (length entries)))\<rparr>
          \<and> updates (uploadHandlerLib e (Some d)) =
              [Save (ut\<lparr>uploads := uploads ut @ entries,
                         uploadsUsed := uploadsUsed ut + int (length entries)\<rparr>)]
          \<and> findOne (store (uploadHandlerLib e (Some d))) t =
              Some (ut\<lparr>uploads := uploads ut @ entries,
                       uploadsUsed := uploadsUsed ut + int (length entries)\<rparr>)
          \<and> (entries = [] \<longrightarrow> store (uploadHandlerLib e (Some d)) = uploadtokens e))"
proof -
  note v = valid_not_rejected[OF assms(5)]
  have A: "\<exists>rs entries.
            length rs = length (files d) \<and> length entries = length (filter success rs)
          \<and> uploadsUsed ut + int (length entries) \<le> maxUploads ut
          \<and> res (processUpload e d) =
              \<lparr>resStatus = 200,
               resBody = ResultsBody rs (maxUploads ut - uploadsUsed ut - int (length entries))\<rparr>
          \<and> updates (processUpload e d) =
              (if entries = [] then [] else [UpdateOne (doc_id ut) (int (length entries)) entries])
          \<and> findOne (store (processUpload e d)) t =
              Some (ut\<lparr>uploadsUsed := uploadsUsed ut + int (length entries),
                       uploads := uploads ut @ entries\<rparr>)"
  proof -
    define r where "r = uploadAll resolves e (userId ut) 0 0 (files d)"
    define rs where "rs = fst r"
    define entries where "entries = fst (snd r)"
    have len: "length rs = length (files d)" by (simp add: rs_def r_def uploadAll_length)
    have cnt: "length entries = length (filter success rs)"
      by (simp add: entries_def rs_def r_def uploadAll_entries_length)
    have "length entries \<le> length (files d)"
      unfolding cnt rs_def r_def by (rule filter_success_le)
    with assms(7) have quota: "uploadsUsed ut + int (length entries) \<le> maxUploads ut" by linarith
    from cnt have nil: "(filter success rs = []) = (entries = [])" by (metis length_0_conv)
    have out: "processUpload e d =
       \<lparr>res = \<lparr>resStatus = 200,
               resBody = ResultsBody rs (maxUploads ut - uploadsUsed ut - int (length entries))\<rparr>,
        calls = snd (snd r),
        updates = (if entries = [] then [] else [UpdateOne (doc_id ut) (int (length entries)) entries]),
        store = foldl (\<lambda>c u. applyUpdate u c) (uploadtokens e)
                  (if entries = [] then [] else [UpdateOne (doc_id ut) (int (length entries)) entries])\<rparr>"
      using assms(1-4,6-8) v cnt nil
      by (simp add: processUpload_def Let_def r_def[symmetric] rs_def[symmetric] entries_def[symmetric])
    have st: "findOne (store (processUpload e d)) t =
              Some (ut\<lparr>uploadsUsed := uploadsUsed ut + int (length entries),
                       uploads := uploads ut @ entries\<rparr>)"
      using assms(4) findOne_applyUpdate[OF assms(9) assms(4), of "int (length entries)" entries]
      by (simp add: out)
    from len cnt quota out st show ?thesis by (intro exI[of _ rs] exI[of _ entries]) simp
  qed
  have L: "\<exists>rs entries.
            length rs = length (files d) \<and> length entries = length (filter success rs)
          \<and> uploadsUsed ut + int (length entries) \<le> maxUploads ut
          \<and> res (uploadHandlerLib e (Some d)) =
              \<lparr>resStatus = 200,
               resBody = ResultsBody rs (maxUploads ut - (uploadsUsed ut + int (length entries)))\<rparr>
          \<and> updates (uploadHandlerLib e (Some d)) =
              [Save (ut\<lparr>uploads := uploads ut @ entries,
                         uploadsUsed := uploadsUsed ut + int (length entries)\<rparr>)]
          \<and> findOne (store (uploadHandlerLib e (Some d))) t =
              Some (ut\<lparr>uploads := uploads ut @ entries,
                       uploadsUsed := uploadsUsed ut + int (length entries)\<rparr>)
          \<and> (entries = [] \<longrightarrow> store (uploadHandlerLib e (Some d)) = uploadtokens e)"
  proof -
    define r where "r = uploadAll fetched e (userId ut) 0 0 (files d)"
    define rs where "rs = fst r"
    define entries where "entries = fst (snd r)"
    define doc where "doc = ut\<lparr>uploads := uploads ut @ entries,
                         uploadsUsed := uploadsUsed ut + int (length entries)\<rparr>"
    have len: "length rs = length (files d)" by (simp add: rs_def r_def uploadAll_length)
    have cnt: "length entries = length (filter success rs)"
      by (simp add: entries_def rs_def r_def uploadAll_entries_length)
    have "length entries \<le> length (files d)"
      unfolding cnt rs_def r_def by (rule filter_success_le)
    with assms(7) have quota: "uploadsUsed ut + int (length entries) \<le> maxUploads ut" by linarith
    have out: "uploadHandlerLib e (Some d) =
       \<lparr>res = \<lparr>resStatus = 200,
               resBody = ResultsBody rs (maxUploads ut - (uploadsUsed ut + int (length entries)))\<rparr>,
        calls = snd (snd r), updates = [Save doc],
        store = applyUpdate (Save doc) (uploadtokens e)\<rparr>"
      using assms(1-8) validateFiles_types[OF assms(8)]
      by (simp add: uploadHandlerLib_def Let_def r_def[symmetric] rs_def[symmetric]
          entries_def[symmetric] foldl_recordUpload doc_def)
    have st: "findOne (store (uploadHandlerLib e (Some d))) t = Some doc"
      using findOne_applySave[OF assms(9) assms(4), of doc] by (simp add: out doc_def)
    have same: "entries = [] \<longrightarrow> store (uploadHandlerLib e (Some d)) = uploadtokens e"
      using applySave_same[OF assms(9) assms(4)] by (simp add: out doc_def)
    from len cnt quota out st same show ?thesis
      unfolding doc_def by (intro exI[of _ rs] exI[of _ entries]) simp
  qed
  from A L show ?thesis by (rule conjI)
qed

theorem commit_counts_successes_witness:
  "res (processUpload (sampleEnv\<lparr>storage := failSecond\<rparr>) twoFiles) =
     \<lparr>resStatus = 200,
      resBody = ResultsBody
        [\<lparr>resFilename = ''a.pdf'', success = True, resError = None\<rparr>,
         \<lparr>resFilename = ''b.pdf'', success = False, resError = Some ''Upload failed''\<rparr>] 1\<rparr>
   \<and> updates (processUpload (sampleEnv\<lparr>storage := failSecond\<rparr>) twoFiles) =
     [UpdateOne 7 1
        [\<lparr>fileName = ''a.pdf'', oneDrivePath = ''AIFile-Uploads/u42/1700000000000-a.pdf'',
          uploadedAt = 1700000000500\<rparr>]]
   \<and> map uploadsUsed (store (processUpload (sampleEnv\<lparr>storage := failSecond\<rparr>) twoFiles)) = [2]
   \<and> map uploadsUsed (store (uploadHandlerLib (sampleEnv\<lparr>storage := failSecond\<rparr>) (Some twoFiles))) = [2]
   \<and> map (length \<circ> uploads) (store (uploadHandlerLib (sampleEnv\<lparr>storage := failSecond\<rparr>) (Some twoFiles))) = [1]"
proof -
  let ?e = "sampleEnv\<lparr>storage := failSecond\<rparr>"
  have h: "formToken twoFiles = Some ''tok-1''" "''tok-1'' \<noteq> []" "storeOnline ?e"
    "findOne (uploadtokens ?e) ''tok-1'' = Some sampleToken" "isValid (clock ?e) sampleToken"
    "files twoFiles \<noteq> []"
    "int (length (files twoFiles)) \<le> maxUploads sampleToken - uploadsUsed sampleToken"
    "validateFiles (files twoFiles) = None" "distinct (map doc_id (uploadtokens ?e))"
    by (simp_all add: sample_defs findOne_def isValid_def ALLOWED_MIME_TYPES_def MAX_FILE_SIZE_def)
  have ev: "processUpload ?e twoFiles =
     \<lparr>res = \<lparr>resStatus = 200,
      resBody = ResultsBody
        [\<lparr>resFilename = ''a.pdf'', success = True, resError = None\<rparr>,
         \<lparr>resFilename = ''b.pdf'', success = False, resError = Some ''Upload failed''\<rparr>] 1\<rparr>,
      calls = [GraphPut ''/users/drive@example.com/drive/root:/AIFile-Uploads/u42/1700000000000-a.pdf:/content'' ''AAA'',
               GraphPut ''/users/drive@example.com/drive/root:/AIFile-Uploads/u42/1700000000001-b.pdf:/content'' ''BBB''],
      updates = [UpdateOne 7 1
        [\<lparr>fileName = ''a.pdf'', oneDrivePath = ''AIFile-Uploads/u42/1700000000000-a.pdf'',
          uploadedAt = 1700000000500\<rparr>]],
      store = [sampleToken\<lparr>uploadsUsed := 2, uploads := [\<lparr>fileName = ''a.pdf'', oneDrivePath = ''AIFile-Uploads/u42/1700000000000-a.pdf'',
          uploadedAt = 1700000000500\<rparr>]\<rparr>]\<rparr>"
    by (simp add: sample_defs eval_defs)
  have evL: "store (uploadHandlerLib ?e (Some twoFiles)) =
     [sampleToken\<lparr>uploadsUsed := 2, uploads := [\<lparr>fileName = ''a.pdf'', oneDrivePath = ''AIFile-Uploads/u42/1700000000000-a.pdf'',
          uploadedAt = 1700000000500\<rparr>]\<rparr>]"
    by (simp add: sample_defs eval_defs)
  from commit_counts_successes[OF h] ev evL show ?thesis
    by (simp add: sampleToken_def)
qed

text \<open>
  In the standalone handler the flags follow the storage: a file for which some storage call
  did not resolve is flagged as failed, wherever it stands in the batch, so it adds nothing
  to \<open>S\<close>.
\<close>

lemma uploadAll_append:
  "uploadAll putOk e uid k j (pre @ post) =
     (let a = uploadAll putOk e uid k j pre;
          b = uploadAll putOk e uid (k + length pre) (j + length (snd (snd a))) post
      in (fst a @ fst b, fst (snd a) @ fst (snd b), snd (snd a) @ snd (snd b)))"
proof (induction pre arbitrary: k j)
  case Nil
  show ?case by simp
next
  case (Cons f pre)
  show ?case
    by (simp add: Let_def Cons.IH add.assoc)
qed

lemma standalone_failed_call_fails_file:
  assumes "j0 = length (snd (snd (uploadAll resolves e uid 0 0 pre)))"
    and "p = ''AIFile-Uploads/'' @ uid @ ''/'' @ showInt (pathStamp e (length pre)) @ ''-'' @ filename f"
    and "c < length (fst (uploadFile resolves (storage e) j0 (oneDriveUser e) p f))"
    and "\<not> resolves (storage e (j0 + c))"
  shows "fst (uploadAll resolves e uid 0 0 (pre @ f # post)) ! length pre =
           \<lparr>resFilename = filename f, success = False, resError = Some ''Upload failed''\<rparr>"
proof -
  from uploadFile_failure[OF assms(3,4)]
  have bad: "\<not> snd (uploadFile resolves (storage e) j0 (oneDriveUser e) p f)" .
  have len: "length (fst (uploadAll resolves e uid 0 0 pre)) = length pre"
    by (rule uploadAll_length)
  show ?thesis
    using bad len unfolding assms(1,2)
    by (simp add: uploadAll_append[of resolves e uid 0 0 pre "f # post"] Let_def nth_append)
qed

text \<open>
  C2, at the inputs where the library handler departs from it. One file of 4194305 bytes, the
  session created and both chunk PUTs answered 500: the file has failed, yet the library
  handler saves \<open>uploadsUsed\<close> raised from 1 to 2 with one history entry, while the standalone
  handler issues no update and leaves the store as it was. And with every storage call
  answered 500, so that nothing succeeded, the library handler still issues its
  \<^verbatim>\<open>save()\<close>, where the standalone handler issues no update.
\<close>

theorem library_commit_counts_failed_file:
  "\<not> resolves (flakyStorage 1) \<and> \<not> resolves (flakyStorage 2)
   \<and> calls (uploadHandlerLib (sampleEnv\<lparr>storage := flakyStorage\<rparr>) (Some (batch [bigFile]))) =
       [GraphPost ''/users/drive@example.com/drive/root:/AIFile-Uploads/u42/1700000000000-big.pdf:/createUploadSession''
          ''big.pdf'',
        RawPut ''https://up.example/s1'' (replicate 4194304 (CHR ''x'')) ''bytes 0-4194303/4194305'',
        RawPut ''https://up.example/s1'' (replicate 1 (CHR ''x'')) ''bytes 4194304-4194304/4194305'']
   \<and> findOne (uploadtokens (sampleEnv\<lparr>storage := flakyStorage\<rparr>)) ''tok-1'' = Some sampleToken
   \<and> uploadsUsed sampleToken = 1
   \<and> map uploadsUsed (store (uploadHandlerLib (sampleEnv\<lparr>storage := flakyStorage\<rparr>) (Some (batch [bigFile])))) = [2]
   \<and> map (length \<circ> uploads) (store (uploadHandlerLib (sampleEnv\<lparr>storage := flakyStorage\<rparr>) (Some (batch [bigFile])))) = [1]
   \<and> updates (processUpload (sampleEnv\<lparr>storage := flakyStorage\<rparr>) (batch [bigFile])) = []
   \<and> store (processUpload (sampleEnv\<lparr>storage := flakyStorage\<rparr>) (batch [bigFile])) = [sampleToken]
   \<and> updates (uploadHandlerLib (sampleEnv\<lparr>storage := downStorage\<rparr>) (Some twoFiles)) = [Save sampleToken]
   \<and> updates (processUpload (sampleEnv\<lparr>storage := downStorage\<rparr>) twoFiles) = []"
  by (simp add: sample_defs eval_defs bigFile_def downStorage_def chunkLoop.simps slice_def
      chunkSize_def contentRange_def)

section \<open>Failed uploads\<close>

text \<open>
  The standalone handler does what C3 says. A storage call of a file that does not resolve
  (\<open>uploadFile_failure\<close>) fails that file; every file still gets its result, in order, a failed
  one in the form \<^verbatim>\<open>{filename, success: false, error: "Upload failed"}\<close>, under status
  200; and with one failure among two files the store update is one increment with one entry.
\<close>

lemma standalone_isolates_failures:
  assumes "formToken d = Some t" and "t \<noteq> []" and "storeOnline e"
    and "findOne (uploadtokens e) t = Some ut" and "isValid (clock e) ut"
    and "files d \<noteq> []" and "int (length (files d)) \<le> maxUploads ut - uploadsUsed ut"
    and "validateFiles (files d) = None"
  shows "\<exists>rs n. res (processUpload e d) = \<lparr>resStatus = 200, resBody = ResultsBody rs n\<rparr>
           \<and> map resFilename rs = map filename (files d)
           \<and> (\<forall>r \<in> set rs. \<not> success r \<longrightarrow>
                 r = \<lparr>resFilename = resFilename r, success = False, resError = Some ''Upload failed''\<rparr>)"
  using assms valid_not_rejected[OF assms(5)]
  by (auto simp: processUpload_def Let_def uploadAll_filenames dest: uploadAll_failed_shape)

lemma standalone_one_of_two_fails:
  assumes "formToken d = Some t" and "t \<noteq> []" and "storeOnline e"
    and "findOne (uploadtokens e) t = Some ut" and "isValid (clock e) ut"
    and "files d = [f1, f2]" and "2 \<le> maxUploads ut - uploadsUsed ut"
    and "validateFiles (files d) = None"
    and "p1 = ''AIFile-Uploads/'' @ userId ut @ ''/'' @ showInt (pathStamp e 0) @ ''-'' @ filename f1"
    and "p2 = ''AIFile-Uploads/'' @ userId ut @ ''/'' @ showInt (pathStamp e 1) @ ''-'' @ filename f2"
    and "snd (uploadFile resolves (storage e) 0 (oneDriveUser e) p1 f1)"
    and "\<not> snd (uploadFile resolves (storage e)
                (length (fst (uploadFile resolves (storage e) 0 (oneDriveUser e) p1 f1)))
                (oneDriveUser e) p2 f2)"
  shows "res (processUpload e d) =
           \<lparr>resStatus = 200,
            resBody = ResultsBody
              [\<lparr>resFilename = filename f1, success = True, resError = None\<rparr>,
               \<lparr>resFilename = filename f2, success = False, resError = Some ''Upload failed''\<rparr>]
              (maxUploads ut - uploadsUsed ut - 1)\<rparr>
         \<and> updates (processUpload e d) =
             [UpdateOne (doc_id ut) 1
                [\<lparr>fileName = filename f1, oneDrivePath = p1, uploadedAt = doneStamp e 0\<rparr>]]"
  using assms(1-8,11,12) valid_not_rejected[OF assms(5)] unfolding assms(9,10)
  by (simp add: processUpload_def Let_def)

text \<open>
  C3, at the input where the library handler departs from it. The session is created (200)
  and both chunk PUTs are answered 500. \<^verbatim>\<open>fetch\<close> resolves on any response and the
  handler does not look at it: the file is reported as a success, a history entry is saved and
  \<open>uploadsUsed\<close> goes from 1 to 2. The standalone handler on the same input stops at the first
  chunk, reports the failure and updates nothing.
\<close>

theorem library_handler_ignores_chunk_status:
  "\<not> resolves (flakyStorage 1) \<and> \<not> resolves (flakyStorage 2)
   \<and> uploadHandlerLib (sampleEnv\<lparr>storage := flakyStorage\<rparr>) (Some (batch [bigFile])) =
       \<lparr>res = \<lparr>resStatus = 200,
               resBody = ResultsBody [\<lparr>resFilename = ''big.pdf'', success = True, resError = None\<rparr>] 1\<rparr>,
        calls =
          [GraphPost ''/users/drive@example.com/drive/root:/AIFile-Uploads/u42/1700000000000-big.pdf:/createUploadSession''
             ''big.pdf'',
           RawPut ''https://up.example/s1'' (replicate 4194304 (CHR ''x'')) ''bytes 0-4194303/4194305'',
           RawPut ''https://up.example/s1'' (replicate 1 (CHR ''x'')) ''bytes 4194304-4194304/4194305''],
        updates =
          [Save (sampleToken
             \<lparr>uploads := [\<lparr>fileName = ''big.pdf'',
                           oneDrivePath = ''AIFile-Uploads/u42/1700000000000-big.pdf'',
                           uploadedAt = 1700000000500\<rparr>],
              uploadsUsed := 2\<rparr>)],
        store =
          [sampleToken
             \<lparr>uploads := [\<lparr>fileName = ''big.pdf'',
                           oneDrivePath = ''AIFile-Uploads/u42/1700000000000-big.pdf'',
                           uploadedAt = 1700000000500\<rparr>],
              uploadsUsed := 2\<rparr>]\<rparr>
   \<and> processUpload (sampleEnv\<lparr>storage := flakyStorage\<rparr>) (batch [bigFile]) =
       \<lparr>res = \<lparr>resStatus = 200,
               resBody = ResultsBody
                 [\<lparr>resFilename = ''big.pdf'', success = False, resError = Some ''Upload failed''\<rparr>] 2\<rparr>,
        calls =
          [GraphPost ''/users/drive@example.com/drive/root:/AIFile-Uploads/u42/1700000000000-big.pdf:/createUploadSession''
             ''big.pdf'',
           RawPut ''https://up.example/s1'' (replicate 4194304 (CHR ''x'')) ''bytes 0-4194303/4194305''],
        updates = [], store = [sampleToken]\<rparr>"
  by (simp add: sample_defs eval_defs bigFile_def chunkLoop.simps slice_def chunkSize_def
      contentRange_def)

section \<open>The size limit\<close>

text \<open>
  The standalone handler does what C5 says: in a request that passed the earlier checks, when
  the first file to fail validation has an allowed type, it is larger than 52428800 bytes and
  the answer is 400 "File too large" with its name, before any storage call; a file of
  exactly 52428800 bytes passes.
\<close>

lemma standalone_rejects_oversize:
  assumes "formToken d = Some t" and "t \<noteq> []" and "storeOnline e"
    and "findOne (uploadtokens e) t = Some ut" and "isValid (clock e) ut"
    and "int (length (files d)) \<le> maxUploads ut - uploadsUsed ut"
    and "find (\<lambda>f. mimeType f \<notin> set ALLOWED_MIME_TYPES \<or> MAX_FILE_SIZE < length (buffer f)) (files d) = Some f"
    and "mimeType f \<in> set ALLOWED_MIME_TYPES"
  shows "52428800 < length (buffer f)
         \<and> processUpload e d =
             \<lparr>res = \<lparr>resStatus = 400,
                     resBody = ErrorBody (''File too large: '' @ filename f @ ''. Max 50MB.'')\<rparr>,
              calls = [], updates = [], store = uploadtokens e\<rparr>"
proof -
  from assms(7) have ne: "files d \<noteq> []" by auto
  from assms(7,8) have big: "MAX_FILE_SIZE < length (buffer f)"
    by (auto simp: find_Some_iff)
  show ?thesis
    using assms ne big valid_not_rejected[OF assms(5)]
    by (simp add: processUpload_def validateFiles_find reject_def MAX_FILE_SIZE_def)
qed

lemma size_check_boundary:
  "mimeType f \<in> set ALLOWED_MIME_TYPES \<Longrightarrow>
   validateFiles [f] = (if length (buffer f) \<le> 52428800 then None
                        else Some (''File too large: '' @ filename f @ ''. Max 50MB.''))"
  by (simp add: MAX_FILE_SIZE_def)

lemma validateTypes_message:
  "validateTypes fs = Some msg \<Longrightarrow> \<exists>nm. msg = ''File type not allowed: '' @ nm"
  by (induction fs) (auto split: if_splits)

lemma lib_never_too_large:
  "resBody (res (uploadHandlerLib e parsed)) \<noteq> ErrorBody (''File too large: '' @ nm @ ''. Max 50MB.'')"
proof -
  have vt: "validateTypes fs \<noteq> Some (''File too large: '' @ nm @ ''. Max 50MB.'')" for fs
    by (auto dest: validateTypes_message)
  show ?thesis
    using vt
    by (auto simp: uploadHandlerLib_def reject_def Let_def split: option.splits)
qed

text \<open>
  C5, where the library handler departs from it. That handler has no size test: no request
  at all is answered "File too large", and whatever bytes the decoder hands over for a file
  of an allowed type (here with the sample token and a storage that accepts everything), the
  request is processed and answered 200 with the file reported as uploaded. The standalone
  handler rejects the same file at 52428801 bytes.
\<close>

theorem library_handler_has_no_size_check:
  "resBody (res (uploadHandlerLib e parsed)) \<noteq> ErrorBody (''File too large: '' @ nm @ ''. Max 50MB.'')
   \<and> res (uploadHandlerLib sampleEnv (Some (batch [pdfFile ''huge.pdf'' buf]))) =
     \<lparr>resStatus = 200,
      resBody = ResultsBody [\<lparr>resFilename = ''huge.pdf'', success = True, resError = None\<rparr>] 1\<rparr>
   \<and> processUpload sampleEnv (batch [pdfFile ''huge.pdf'' (replicate 52428801 (CHR ''x''))]) =
     \<lparr>res = \<lparr>resStatus = 400, resBody = ErrorBody ''File too large: huge.pdf. Max 50MB.''\<rparr>,
      calls = [], updates = [], store = [sampleToken]\<rparr>"
proof -
  have ok: "snd (uploadFile fetched (storage sampleEnv) 0 (oneDriveUser sampleEnv) p
                  (pdfFile ''huge.pdf'' buf))" for p
    by (rule uploadFile_all_ok) (simp add: sampleEnv_def resolves_def fetched_def uploadUrl_def)
  have "res (uploadHandlerLib sampleEnv (Some (batch [pdfFile ''huge.pdf'' buf]))) =
     \<lparr>resStatus = 200,
      resBody = ResultsBody [\<lparr>resFilename = ''huge.pdf'', success = True, resError = None\<rparr>] 1\<rparr>"
    using ok
    by (simp add: uploadHandlerLib_def batch_def Let_def findOne_def isValid_def
        ALLOWED_MIME_TYPES_def recordUpload_def sampleEnv_def sampleToken_def pdfFile_def)
  moreover have "processUpload sampleEnv (batch [pdfFile ''huge.pdf'' (replicate 52428801 (CHR ''x''))]) =
     \<lparr>res = \<lparr>resStatus = 400, resBody = ErrorBody ''File too large: huge.pdf. Max 50MB.''\<rparr>,
      calls = [], updates = [], store = [sampleToken]\<rparr>"
    by (simp add: processUpload_def batch_def pdfFile_def sampleEnv_def sampleToken_def findOne_def
        tokenRejected_def ALLOWED_MIME_TYPES_def MAX_FILE_SIZE_def reject_def)
  ultimately show ?thesis using lib_never_too_large[of e parsed nm] by blast
qed

section \<open>Decoding a multipart body\<close>

lemma indexOfAux_shift:
  "indexOfAux nd xs (i + k) = map_option (\<lambda>r. r + k) (indexOfAux nd xs i)"
proof (induction xs arbitrary: i)
  case Nil
  then show ?case by simp
next
  case (Cons x xs)
  from Cons.IH[of "Suc i"] show ?case by simp
qed

lemma prefix_shorter:
  "length nd \<le> length xs \<Longrightarrow> prefix nd (xs @ ys) = prefix nd xs"
  by (metis prefix_append prefix_length_le prefix_order.antisym_conv prefix_order.order_refl
      prefix_length_prefix prefixI append_prefixD)

lemma indexOfAux_extend:
  assumes "indexOfAux nd (P @ nd) 0 = Some (length P)"
  shows "indexOfAux nd (P @ nd @ rest) i = Some (i + length P)"
  using assms
proof (induction P arbitrary: i)
  case Nil
  show ?case
  proof (cases "nd @ rest")
    case Nil
    then show ?thesis by simp
  next
    case (Cons a list)
    have "prefix nd (nd @ rest)" by simp
    with Cons have "prefix nd (a # list)" by simp
    with Cons show ?thesis by simp
  qed
next
  case (Cons x P)
  have len: "length nd \<le> length ((x # P) @ nd)" by simp
  from Cons.prems have np: "\<not> prefix nd (x # P @ nd)" by (auto split: if_splits)
  with prefix_shorter[OF len, of rest] have np': "\<not> prefix nd (x # P @ nd @ rest)" by simp
  from Cons.prems np have "indexOfAux nd (P @ nd) (Suc 0) = Some (Suc (length P))" by simp
  with indexOfAux_shift[of nd "P @ nd" 0 1] have "indexOfAux nd (P @ nd) 0 = Some (length P)"
    by (cases "indexOfAux nd (P @ nd) 0") auto
  from Cons.IH[OF this, of "Suc i"] np' show ?case by simp
qed

lemma indexOfAux_None_shift: "indexOfAux nd xs i = None \<longleftrightarrow> indexOfAux nd xs 0 = None"
  using indexOfAux_shift[of nd xs 0 i] by (cases "indexOfAux nd xs 0") auto

lemma length_CRLF [simp]: "length CRLF = 2"
  by (simp add: CRLF_def)

lemma length_delimiter [simp]: "length (delimiter b) = length b + 2"
  by (simp add: delimiter_def)

lemma length_partBytes [simp]: "length (partBytes p) = length (fst p) + length (snd p) + 8"
  by (simp add: partBytes_def)

lemma parsePart_partBytes:
  assumes "wellFramed b p"
  shows "parsePart (partBytes p) acc =
     (if nameMatch (CRLF @ fst p) = Some ''token'' \<and> filenameMatch (CRLF @ fst p) = None
      then (fst acc, Some (jsTrim (snd p)))
      else (case filenameMatch (CRLF @ fst p) of
              Some fn \<Rightarrow>
                (fst acc @ [\<lparr>filename = fn, mimeType = declaredType (CRLF @ fst p), buffer = snd p\<rparr>],
                 snd acc)
            | None \<Rightarrow> acc))"
proof -
  let ?h = "fst p" and ?c = "snd p"
  from assms have "indexOfAux (CRLF @ CRLF) ((CRLF @ ?h) @ (CRLF @ CRLF)) 0 = Some (length (CRLF @ ?h))"
    by (simp add: wellFramed_def indexOf_def)
  from indexOfAux_extend[OF this, of "?c @ CRLF" 0]
  have he: "indexOf (partBytes p) (CRLF @ CRLF) 0 = Some (length ?h + 2)"
    by (simp add: indexOf_def partBytes_def)
  have hs: "slice (partBytes p) 0 (length ?h + 2) = CRLF @ ?h"
    by (simp add: slice_def partBytes_def)
  have ct: "slice (partBytes p) (length ?h + 2 + 4) (length (partBytes p) - 2) = ?c"
    by (simp add: slice_def partBytes_def)
  show ?thesis
    unfolding parsePart_def he using hs ct
    by (simp add: declaredType_def Let_def split: option.splits del: length_partBytes)
qed

lemma parseLoop_step:
  assumes "indexOfAux (delimiter b) (P @ delimiter b) 0 = Some (length P)"
  shows "parseLoop (pre @ P @ delimiter b @ rest) b (length pre) acc =
         parseLoop (pre @ P @ delimiter b @ rest) b (length (pre @ P @ delimiter b)) (parsePart P acc)"
proof -
  let ?body = "pre @ P @ delimiter b @ rest"
  have lt: "length pre < length ?body" by simp
  from indexOfAux_extend[OF assms, of rest "length pre"]
  have ix: "indexOf ?body (''--'' @ b) (length pre) = Some (length pre + length P)"
    by (simp add: indexOf_def delimiter_def)
  have sl: "slice ?body (length pre) (length pre + length P) = P"
    by (simp add: slice_def)
  show ?thesis
    using lt ix sl by (subst parseLoop.simps) (simp add: add.assoc)
qed

lemma parseLoop_end:
  assumes "indexOfAux (delimiter b) epi 0 = None"
  shows "parseLoop (pre @ epi) b (length pre) acc = acc"
proof -
  from assms have "indexOf (pre @ epi) (''--'' @ b) (length pre) = None"
    using indexOfAux_None_shift[of "delimiter b" epi "length pre"]
    by (simp add: indexOf_def delimiter_def)
  then show ?thesis by (subst parseLoop.simps) (simp split: option.splits)
qed

lemma parseLoop_parts:
  assumes "\<forall>p \<in> set ps. wellFramed b p" and "indexOfAux (delimiter b) epi 0 = None"
  shows "parseLoop (pre @ concat (map (\<lambda>p. partBytes p @ delimiter b) ps) @ epi) b (length pre) acc =
         foldl (\<lambda>a p. parsePart (partBytes p) a) acc ps"
  using assms(1)
proof (induction ps arbitrary: pre acc)
  case Nil
  show ?case using parseLoop_end[OF assms(2)] by simp
next
  case (Cons p ps)
  let ?rest = "concat (map (\<lambda>p. partBytes p @ delimiter b) ps) @ epi"
  from Cons.prems have wf: "wellFramed b p" and wfs: "\<forall>p \<in> set ps. wellFramed b p" by auto
  from wf have first: "indexOfAux (delimiter b) (partBytes p @ delimiter b) 0 = Some (length (partBytes p))"
    by (simp add: wellFramed_def indexOf_def)
  have "parseLoop (pre @ concat (map (\<lambda>p. partBytes p @ delimiter b) (p # ps)) @ epi) b (length pre) acc =
        parseLoop (pre @ partBytes p @ delimiter b @ ?rest) b (length pre) acc"
    by simp
  also have "\<dots> = parseLoop (pre @ partBytes p @ delimiter b @ ?rest) b
                     (length (pre @ partBytes p @ delimiter b)) (parsePart (partBytes p) acc)"
    by (rule parseLoop_step[OF first])
  also have "\<dots> = parseLoop ((pre @ partBytes p @ delimiter b) @ ?rest) b
                     (length (pre @ partBytes p @ delimiter b)) (parsePart (partBytes p) acc)"
    by simp
  also have "\<dots> = foldl (\<lambda>a p. parsePart (partBytes p) a) (parsePart (partBytes p) acc) ps"
    by (rule Cons.IH[OF wfs])
  finally show ?case by simp
qed

lemma renderBody_regroup:
  "renderBody b ps = delimiter b @ concat (map (\<lambda>p. partBytes p @ delimiter b) ps) @ ''--'' @ CRLF"
proof -
  have "concat (map (\<lambda>p. delimiter b @ partBytes p) ps) @ delimiter b =
        delimiter b @ concat (map (\<lambda>p. partBytes p @ delimiter b) ps)"
    by (induction ps) auto
  then show ?thesis by (simp add: renderBody_def)
qed

lemma lazyDots_prefix: "lazyDots acc r = Some b \<Longrightarrow> prefix acc b"
proof (induction acc r rule: lazyDots.induct)
  case (1 acc)
  then show ?case by simp
next
  case (2 acc c cs)
  then show ?case by (auto split: if_splits dest: append_prefixD)
qed

lemma regexSearch_Some: "regexSearch m s = Some r \<Longrightarrow> \<exists>s'. m s' = Some r"
  by (induction s) (auto split: option.splits)

lemma boundaryMatch_head:
  assumes "boundaryMatch ct = Some b"
  shows "b \<noteq> [] \<and> hd b \<noteq> CHR 0x0D"
proof -
  from assms obtain s where "boundaryAt s = Some b"
    unfolding boundaryMatch_def by (blast dest: regexSearch_Some)
  then obtain c cs where c: "\<not> isLineTerminator c" and "lazyDots [c] cs = Some b"
    by (auto simp: boundaryAt_def split: if_splits list.splits)
  from lazyDots_prefix[OF this(2)] obtain b' where "b = c # b'" by (auto simp: prefix_def)
  with c show ?thesis by (auto simp: isLineTerminator_def)
qed

lemma closing_has_no_delimiter:
  assumes "b \<noteq> []" and "hd b \<noteq> CHR 0x0D"
  shows "indexOfAux (delimiter b) (''--'' @ CRLF) 0 = None"
proof -
  from assms obtain c b' where "b = c # b'" and "c \<noteq> CHR 0x0D" by (cases b) auto
  then show ?thesis by (simp add: delimiter_def CRLF_def)
qed

lemma parseMultipart_renderBody:
  assumes "boundaryMatch ct = Some b" and "\<forall>p \<in> set ps. wellFramed b p"
  shows "parseMultipart \<lparr>contentType = Some ct, body = Some (renderBody b ps)\<rparr> =
           Inr \<lparr>files = fst (foldl (\<lambda>a p. parsePart (partBytes p) a) ([], None) ps),
                formToken = snd (foldl (\<lambda>a p. parsePart (partBytes p) a) ([], None) ps)\<rparr>"
proof -
  let ?mid = "concat (map (\<lambda>p. partBytes p @ delimiter b) ps)"
  note hd = boundaryMatch_head[OF assms(1)]
  have "indexOfAux (delimiter b) ([] @ delimiter b) 0 = Some (length ([] :: string))"
    by (cases "delimiter b") (auto simp: delimiter_def)
  from indexOfAux_extend[OF this, of "?mid @ ''--'' @ CRLF" 0]
  have ix: "indexOf (renderBody b ps) (''--'' @ b) 0 = Some 0"
    by (simp add: indexOf_def renderBody_regroup) (simp add: delimiter_def)
  have loop: "parseLoop (renderBody b ps) b (length (delimiter b)) ([], None) =
              foldl (\<lambda>a p. parsePart (partBytes p) a) ([], None) ps"
    unfolding renderBody_regroup
    using parseLoop_parts[OF assms(2) closing_has_no_delimiter, of "delimiter b" "([], None)"] hd
    by simp
  show ?thesis
    using assms(1) ix loop by (simp add: parseMultipart_def Let_def)
qed

lemma filenameMatch_fileHeader:
  assumes "nm \<noteq> []" and "dq \<notin> set nm"
  shows "filenameMatch (CRLF @ fileHeader nm mt) = Some nm"
proof -
  have tw: "takeWhile (\<lambda>c. c \<noteq> dq) (nm @ dq # rest) = nm" for rest
    using assms(2) by (auto simp: takeWhile_tail)
  have at: "quotedAt (''filename='' @ [dq]) (''filename='' @ [dq] @ nm @ [dq] @ rest) = Some nm" for rest
    using assms(1) by (simp add: quotedAt_def tw)
  have skip: "regexSearch (quotedAt (''filename='' @ [dq]))
                (CRLF @ ''Content-Disposition: form-data; name='' @ [dq] @ ''files'' @ [dq] @ ''; '' @ rest) =
              regexSearch (quotedAt (''filename='' @ [dq])) rest" for rest
    by (simp add: quotedAt_def CRLF_def dq_def)
  have "CRLF @ fileHeader nm mt =
        CRLF @ ''Content-Disposition: form-data; name='' @ [dq] @ ''files'' @ [dq] @ ''; '' @
        (''filename='' @ [dq] @ nm @ [dq] @ CRLF @ ''Content-Type: '' @ mt)"
    by (simp add: fileHeader_def)
  then have "filenameMatch (CRLF @ fileHeader nm mt) =
        regexSearch (quotedAt (''filename='' @ [dq]))
          (''filename='' @ [dq] @ nm @ [dq] @ CRLF @ ''Content-Type: '' @ mt)"
    unfolding filenameMatch_def by (simp only: skip)
  also have "\<dots> = Some nm"
    using at[of "CRLF @ ''Content-Type: '' @ mt"] by simp
  finally show ?thesis .
qed

text \<open>
  C7. Take a Content-Type header from which the decoder extracts the boundary \<open>b\<close>, and
  three well-framed parts: one whose header block names the field \<^verbatim>\<open>token\<close> and has no
  filename, with content \<open>tv\<close>, and two whose header blocks carry the filenames \<open>n1\<close> and
  \<open>n2\<close>. Whether the token part comes first, between the files or last, decoding the body
  yields the token \<open>tv\<close> trimmed and exactly the two files, in their order of appearance,
  each with its filename, its declared type and its content.
\<close>

theorem decode_token_and_two_files:
  assumes "boundaryMatch ct = Some b"
    and "wellFramed b (ht, tv)" and "wellFramed b (h1, c1)" and "wellFramed b (h2, c2)"
    and "nameMatch (CRLF @ ht) = Some ''token''" and "filenameMatch (CRLF @ ht) = None"
    and "filenameMatch (CRLF @ h1) = Some n1" and "filenameMatch (CRLF @ h2) = Some n2"
  shows "\<forall>ps \<in> set [[(ht, tv), (h1, c1), (h2, c2)],
                     [(h1, c1), (ht, tv), (h2, c2)],
                     [(h1, c1), (h2, c2), (ht, tv)]].
           parseMultipart \<lparr>contentType = Some ct, body = Some (renderBody b ps)\<rparr> =
             Inr \<lparr>files = [\<lparr>filename = n1, mimeType = declaredType (CRLF @ h1), buffer = c1\<rparr>,
                           \<lparr>filename = n2, mimeType = declaredType (CRLF @ h2), buffer = c2\<rparr>],
                  formToken = Some (jsTrim tv)\<rparr>"
proof -
  note pp = parsePart_partBytes[OF assms(2)] parsePart_partBytes[OF assms(3)]
    parsePart_partBytes[OF assms(4)]
  show ?thesis
    using assms(5-8)
    by (simp add: parseMultipart_renderBody[OF assms(1)] assms(2-4) pp)
qed

theorem decode_token_and_two_files_witness:
  "parseMultipart \<lparr>contentType = Some ''multipart/form-data; boundary=XB'',
                   body = Some (renderBody ''XB'' [tokenPart, pdfPart, pngPart])\<rparr> =
     Inr \<lparr>files = [\<lparr>filename = ''a.pdf'', mimeType = ''application/pdf'', buffer = snd pdfPart\<rparr>,
                   \<lparr>filename = ''b.png'', mimeType = ''image/png'', buffer = snd pngPart\<rparr>],
          formToken = Some ''abc123''\<rparr>
   \<and> parseMultipart \<lparr>contentType = Some ''multipart/form-data; boundary=XB'',
                     body = Some (renderBody ''XB'' [pdfPart, tokenPart, pngPart])\<rparr> =
     Inr \<lparr>files = [\<lparr>filename = ''a.pdf'', mimeType = ''application/pdf'', buffer = snd pdfPart\<rparr>,
                   \<lparr>filename = ''b.png'', mimeType = ''image/png'', buffer = snd pngPart\<rparr>],
          formToken = Some ''abc123''\<rparr>
   \<and> parseMultipart \<lparr>contentType = Some ''multipart/form-data; boundary=XB'',
                     body = Some (renderBody ''XB'' [pdfPart, pngPart, tokenPart])\<rparr> =
     Inr \<lparr>files = [\<lparr>filename = ''a.pdf'', mimeType = ''application/pdf'', buffer = snd pdfPart\<rparr>,
                   \<lparr>filename = ''b.png'', mimeType = ''image/png'', buffer = snd pngPart\<rparr>],
          formToken = Some ''abc123''\<rparr>"
proof -
  have b: "boundaryMatch ''multipart/form-data; boundary=XB'' = Some ''XB''"
    by code_simp
  have wt: "wellFramed ''XB'' (tokenHeader, '' abc123 '')"
    by code_simp
  have w1: "wellFramed ''XB'' (fileHeader ''a.pdf'' ''application/pdf'', ''%PDF-1.7 --X'')"
    by code_simp
  have w2: "wellFramed ''XB'' (fileHeader ''b.png'' ''image/png'', CHR 0x89 # ''PNG'' @ CRLF @ CRLF @ ''IHDR'')"
    by code_simp
  have nt: "nameMatch (CRLF @ tokenHeader) = Some ''token''"
    by code_simp
  have ft: "filenameMatch (CRLF @ tokenHeader) = None"
    by code_simp
  have f1: "filenameMatch (CRLF @ fileHeader ''a.pdf'' ''application/pdf'') = Some ''a.pdf''"
    by code_simp
  have f2: "filenameMatch (CRLF @ fileHeader ''b.png'' ''image/png'') = Some ''b.png''"
    by code_simp
  have m1: "declaredType (CRLF @ fileHeader ''a.pdf'' ''application/pdf'') = ''application/pdf''"
    by code_simp
  have m2: "declaredType (CRLF @ fileHeader ''b.png'' ''image/png'') = ''image/png''"
    by code_simp
  have tr: "jsTrim '' abc123 '' = ''abc123''"
    by code_simp
  from decode_token_and_two_files[OF b wt w1 w2 nt ft f1 f2]
  show ?thesis
    by (simp add: m1 m2 tr tokenPart_def pdfPart_def pngPart_def)
qed

end
